theory Spec2Isabelle
  imports Complex_Main "HOL-Library.Log_Nat"
begin

section \<open>Data model of \<^verbatim>\<open>main.py\<close>\<close>

text \<open>
  \<^verbatim>\<open>DMS = Tuple[int, int, int]\<close>, \<^verbatim>\<open>Coordinate = Tuple[DMS, DMS]\<close>, and the
  two \<^verbatim>\<open>TypedDict\<close>s \<^verbatim>\<open>Photo\<close> and \<^verbatim>\<open>Album\<close>.  A \<^verbatim>\<open>datetime\<close> is kept as a number
  (seconds); its only use is \<^verbatim>\<open>strftime\<close>.  Bytes are \<open>char\<close>s, which are 8 bits wide.
\<close>

type_synonym dms = "int \<times> int \<times> int"
type_synonym coordinate = "dms \<times> dms"
type_synonym bytes = "char list"
type_synonym datetime = nat

record photo =
  photo_id :: string
  photo_title :: string
  url :: string
  capture_date :: "datetime option"

record album =
  album_title :: string
  photos :: "photo list"

section \<open>Strings and paths\<close>

text \<open>\<^verbatim>\<open>s.split(sep)\<close> for a one-character separator: \<open>n\<close> separators give \<open>n + 1\<close> parts.\<close>

fun split_on :: "char \<Rightarrow> string \<Rightarrow> string list" where
  "split_on sep [] = [[]]"
| "split_on sep (c # cs) =
     (if c = sep then [] # split_on sep cs
      else (case split_on sep cs of [] \<Rightarrow> [[c]] | p # ps \<Rightarrow> (c # p) # ps))"

text \<open>\<^verbatim>\<open>sub in s\<close> for strings: \<open>sub\<close> occurs in \<open>s\<close> as a contiguous block.\<close>

fun contains :: "string \<Rightarrow> string \<Rightarrow> bool" where
  "contains sub [] = (sub = [])"
| "contains sub (c # cs) = (take (length sub) (c # cs) = sub \<or> contains sub cs)"

text \<open>\<^verbatim>\<open>"/".join(parts)\<close>.\<close>

fun join_slash :: "string list \<Rightarrow> string" where
  "join_slash [] = []"
| "join_slash [p] = p"
| "join_slash (p # q # ps) = p @ ''/'' @ join_slash (q # ps)"

text \<open>
  A \<^verbatim>\<open>pathlib.Path\<close> on POSIX (the program calls \<^verbatim>\<open>/usr/bin/touch\<close>): an anchor, which is
  empty, \<^verbatim>\<open>/\<close> or \<^verbatim>\<open>//\<close>, and the components.  Parsing drops empty components and
  \<^verbatim>\<open>.\<close> components and keeps \<^verbatim>\<open>..\<close>; \<^verbatim>\<open>str\<close> of the empty path is \<^verbatim>\<open>.\<close>; the operator
  \<^verbatim>\<open>/\<close> with an absolute right operand gives the right operand.
\<close>

datatype path = Path (anchor: string) (parts: "string list")

definition anchor_of :: "string \<Rightarrow> string" where
  "anchor_of s =
     (if take 2 s = ''//'' \<and> take 3 s \<noteq> ''///'' then ''//''
      else if take 1 s = ''/'' then ''/'' else [])"

definition path_of_str :: "string \<Rightarrow> path" where
  "path_of_str s =
     Path (anchor_of s) (filter (\<lambda>p. p \<noteq> [] \<and> p \<noteq> ''.'') (split_on CHR ''/'' s))"

definition str_of_path :: "path \<Rightarrow> string" where
  "str_of_path p =
     (if anchor p = [] \<and> parts p = [] then ''.'' else anchor p @ join_slash (parts p))"

definition joinpath :: "path \<Rightarrow> string \<Rightarrow> path" where
  "joinpath p s =
     (if take 1 s = ''/'' then path_of_str s
      else Path (anchor p) (parts p @ parts (path_of_str s)))"

definition parent :: "path \<Rightarrow> path" where
  "parent p = Path (anchor p) (butlast (parts p))"

text \<open>The directory that has to exist for a file of this name to be created.\<close>

definition dirname :: "string \<Rightarrow> string" where
  "dirname f = str_of_path (parent (path_of_str f))"

section \<open>The world the program runs in\<close>

text \<open>
  The file system is a map from the path string handed to the operating system to a
  node; a file has its contents and its modification time, which is either the logical
  time of the last write or the stamp given to \<^verbatim>\<open>touch -mt\<close>.  Two spellings of one
  file are not identified, and there are no permissions.  The world also records every
  \<^verbatim>\<open>requests.get\<close> (its URL), every call of the \<^verbatim>\<open>logging\<close> module, and how many
  \<^verbatim>\<open>uuid.uuid4()\<close> tokens have been drawn.
\<close>

datatype mtime = Written nat | Touched string

datatype node = Dir | File (content: bytes) (modified: mtime)

datatype level = ERROR | WARNING | INFO | DEBUG

record world =
  fs :: "string \<rightharpoonup> node"
  gets :: "string list"
  logs :: "(level \<times> string) list"
  uuids :: nat
  clock :: nat

text \<open>Exceptions that calls made by \<^verbatim>\<open>main.py\<close> raise; none of them is raised by the
  program's own code.\<close>

datatype error =
    FileExistsError
  | FileNotFoundError
  | NotADirectoryError
  | IsADirectoryError
  | ConnectionError
  | RuntimeError string
  | ValueError
  | OverflowError
  | OtherError string

datatype 'a outcome = Returned 'a | Raised error

text \<open>
  What a \<^verbatim>\<open>requests.get(url, stream=True)\<close> gives: the connection fails and the call
  raises, or a response whose \<^verbatim>\<open>iter_content\<close> yields chunks and then either ends or
  raises.  The HTTP status is not looked at by the program.
\<close>

datatype response = Unreachable | Response (chunks: "bytes list") (broken: bool)

datatype exif_value = DmsValue dms | RefValue string

text \<open>
  What the program takes from outside: \<^verbatim>\<open>pathvalidate\<close>'s two sanitizers, the random
  tokens, the server (the answer may depend on how many requests came before), the
  \<^verbatim>\<open>exif\<close> library with its image type \<open>'img\<close> (constructor, attribute assignment,
  \<^verbatim>\<open>get_file\<close>, each of which may raise), and \<^verbatim>\<open>strftime("%Y%m%d%H%M")\<close>.
\<close>

record 'img env =
  sanitize_filename :: "string \<Rightarrow> string"
  sanitize_filepath :: "string \<Rightarrow> string"
  uuid4 :: "nat \<Rightarrow> string"
  http_get :: "nat \<Rightarrow> string \<Rightarrow> response"
  exif_Image :: "bytes \<Rightarrow> error + 'img"
  exif_setattr :: "'img \<Rightarrow> string \<Rightarrow> exif_value \<Rightarrow> error + 'img"
  exif_get_file :: "'img \<Rightarrow> error + bytes"
  strftime :: "datetime \<Rightarrow> string"

definition log_call :: "level \<Rightarrow> string \<Rightarrow> world \<Rightarrow> world" where
  "log_call l m w = w\<lparr>logs := logs w @ [(l, m)]\<rparr>"

definition is_dir :: "world \<Rightarrow> string \<Rightarrow> bool" where
  "is_dir w p = (fs w p = Some Dir)"

definition exists_path :: "world \<Rightarrow> string \<Rightarrow> bool" where
  "exists_path w p = (fs w p \<noteq> None)"

text \<open>
  \<^verbatim>\<open>Path.mkdir(exist_ok=True)\<close>, without \<^verbatim>\<open>parents\<close>: nothing happens when the directory
  is there; a file of that name, or a parent that is missing or is a file, raises.
\<close>

definition mkdir_exist_ok :: "path \<Rightarrow> world \<Rightarrow> error + world" where
  "mkdir_exist_ok p w =
     (case fs w (str_of_path p) of
        Some Dir \<Rightarrow> Inr w
      | Some (File _ _) \<Rightarrow> Inl FileExistsError
      | None \<Rightarrow>
          (case fs w (str_of_path (parent p)) of
             Some Dir \<Rightarrow> Inr (w\<lparr>fs := (fs w)(str_of_path p \<mapsto> Dir)\<rparr>)
           | Some (File _ _) \<Rightarrow> Inl NotADirectoryError
           | None \<Rightarrow> Inl FileNotFoundError))"

text \<open>\<^verbatim>\<open>open(f, "wb")\<close>: creates the file or truncates it.\<close>

definition open_wb :: "string \<Rightarrow> world \<Rightarrow> error + world" where
  "open_wb f w =
     (case fs w f of
        Some Dir \<Rightarrow> Inl IsADirectoryError
      | _ \<Rightarrow>
          (case fs w (dirname f) of
             Some Dir \<Rightarrow>
               Inr (w\<lparr>fs := (fs w)(f \<mapsto> File [] (Written (clock w))), clock := Suc (clock w)\<rparr>)
           | Some (File _ _) \<Rightarrow> Inl NotADirectoryError
           | None \<Rightarrow> Inl FileNotFoundError))"

text \<open>Writing to the file opened last: the bytes are appended.\<close>

definition write_bytes :: "string \<Rightarrow> bytes \<Rightarrow> world \<Rightarrow> world" where
  "write_bytes f b w =
     (case fs w f of
        Some (File c _) \<Rightarrow>
          w\<lparr>fs := (fs w)(f \<mapsto> File (c @ b) (Written (clock w))), clock := Suc (clock w)\<rparr>
      | _ \<Rightarrow> w)"

text \<open>
  \<^verbatim>\<open>subprocess.run(["/usr/bin/touch", "-mt", stamp, f])\<close>.  The path is passed without
  a preceding \<^verbatim>\<open>--\<close>, so \<^verbatim>\<open>touch\<close> reads a path that begins with \<^verbatim>\<open>-\<close> as options, finds no
  file operand and fails; a failing \<^verbatim>\<open>touch\<close> does not raise, since \<^verbatim>\<open>check\<close> is not set,
  and the file keeps its time.
\<close>

definition touch_mt :: "string \<Rightarrow> string \<Rightarrow> world \<Rightarrow> world" where
  "touch_mt stamp f w =
     (if take 1 f = ''-'' then w
      else
        (case fs w f of
           Some (File c _) \<Rightarrow> w\<lparr>fs := (fs w)(f \<mapsto> File c (Touched stamp))\<rparr>
         | Some Dir \<Rightarrow> w
         | None \<Rightarrow>
             (if is_dir w (dirname f) then w\<lparr>fs := (fs w)(f \<mapsto> File [] (Touched stamp))\<rparr>
              else w)))"

section \<open>\<^verbatim>\<open>download_albums\<close>\<close>

text \<open>Lines 75-76: \<^verbatim>\<open>if not "." in str(filename): filename = str(filename) + ".jpg"\<close>.\<close>

definition add_jpg :: "string \<Rightarrow> string" where
  "add_jpg f = (if CHR ''.'' \<notin> set f then f @ ''.jpg'' else f)"

text \<open>Lines 77-78: \<^verbatim>\<open>if "file.jpg" in str(filename):
  filename = str(filename)[:-8] + str(uuid.uuid4()) + ".jpg"\<close>.  The slice \<^verbatim>\<open>[:-8]\<close> of a
  string shorter than 8 is empty, as \<open>take\<close> with the truncating subtraction is.\<close>

definition rename_unique :: "'img env \<Rightarrow> string \<Rightarrow> world \<Rightarrow> string \<times> world" where
  "rename_unique E f w =
     (if contains ''file.jpg'' f
      then (take (length f - 8) f @ uuid4 E (uuids w) @ ''.jpg'', w\<lparr>uuids := Suc (uuids w)\<rparr>)
      else (f, w))"

text \<open>Lines 80-83: the request, then the file is opened and the chunks are written.\<close>

definition fetch :: "'img env \<Rightarrow> string \<Rightarrow> string \<Rightarrow> world \<Rightarrow> unit outcome \<times> world" where
  "fetch E u f w =
     (let w1 = w\<lparr>gets := gets w @ [u]\<rparr> in
      case http_get E (length (gets w)) u of
        Unreachable \<Rightarrow> (Raised ConnectionError, w1)
      | Response cs brk \<Rightarrow>
          (case open_wb f w1 of
             Inl e \<Rightarrow> (Raised e, w1)
           | Inr w2 \<Rightarrow>
               (if brk then Raised ConnectionError else Returned (),
                write_bytes f (concat cs) w2)))"

text \<open>Lines 88-92: the image is built from the bytes read back, then the four
  attributes are assigned in this order; the first exception ends the block.\<close>

definition tag_image :: "'img env \<Rightarrow> coordinate \<Rightarrow> bytes \<Rightarrow> error + 'img" where
  "tag_image E c b =
     (case exif_Image E b of
        Inl e \<Rightarrow> Inl e
      | Inr i0 \<Rightarrow>
     (case exif_setattr E i0 ''gps_latitude'' (DmsValue (fst c)) of
        Inl e \<Rightarrow> Inl e
      | Inr i1 \<Rightarrow>
     (case exif_setattr E i1 ''gps_latitude_ref'' (RefValue ''N'') of
        Inl e \<Rightarrow> Inl e
      | Inr i2 \<Rightarrow>
     (case exif_setattr E i2 ''gps_longitude'' (DmsValue (snd c)) of
        Inl e \<Rightarrow> Inl e
      | Inr i3 \<Rightarrow> exif_setattr E i3 ''gps_longitude_ref'' (RefValue ''W'')))))"

text \<open>Lines 96-97: \<^verbatim>\<open>except RuntimeError\<close> logs a warning; anything else propagates.\<close>

definition except_RuntimeError :: "error \<Rightarrow> world \<Rightarrow> unit outcome \<times> world" where
  "except_RuntimeError e w =
     (case e of
        RuntimeError m \<Rightarrow> (Returned (), log_call WARNING (''Unable to store EXIF data: '' @ m) w)
      | _ \<Rightarrow> (Raised e, w))"

text \<open>Lines 85-97.  In line 95 the file is opened for writing, hence truncated, before
  \<^verbatim>\<open>image.get_file()\<close> is evaluated.\<close>

definition store_exif ::
  "'img env \<Rightarrow> coordinate option \<Rightarrow> string \<Rightarrow> world \<Rightarrow> unit outcome \<times> world" where
  "store_exif E coordinate f w =
     (case coordinate of
        None \<Rightarrow> (Returned (), w)
      | Some c \<Rightarrow>
          (case fs w f of
             None \<Rightarrow> (Raised FileNotFoundError, w)
           | Some Dir \<Rightarrow> (Raised IsADirectoryError, w)
           | Some (File b _) \<Rightarrow>
               (case tag_image E c b of
                  Inl e \<Rightarrow> except_RuntimeError e w
                | Inr i \<Rightarrow>
                    (case open_wb f w of
                       Inl e \<Rightarrow> (Raised e, w)
                     | Inr w1 \<Rightarrow>
                         (case exif_get_file E i of
                            Inl e \<Rightarrow> except_RuntimeError e w1
                          | Inr b' \<Rightarrow> (Returned (), write_bytes f b' w1))))))"

text \<open>Lines 100-102.\<close>

definition set_file_date :: "'img env \<Rightarrow> photo \<Rightarrow> string \<Rightarrow> world \<Rightarrow> world" where
  "set_file_date E p f w =
     (case capture_date p of
        None \<Rightarrow> w
      | Some d \<Rightarrow> touch_mt (strftime E d) f w)"

text \<open>Lines 70-102, the body of the inner loop for one photo.\<close>

definition download_photo ::
  "'img env \<Rightarrow> coordinate option \<Rightarrow> path \<Rightarrow> photo \<Rightarrow> world \<Rightarrow> unit outcome \<times> world" where
  "download_photo E coordinate group_path p w =
     (let filename = joinpath group_path (sanitize_filename E (photo_title p)) in
      if exists_path w (str_of_path filename)
      then (Returned (),
            log_call DEBUG
              (''> '' @ str_of_path filename @ '' exists already, so skipping download'') w)
      else
        (case rename_unique E (add_jpg (str_of_path filename)) w of (f, w1) \<Rightarrow>
         (case fetch E (url p) f (log_call INFO (''> Downloading image: '' @ f) w1) of
            (Raised e, w2) \<Rightarrow> (Raised e, w2)
          | (Returned _, w2) \<Rightarrow>
              (case store_exif E coordinate f w2 of
                 (Raised e, w3) \<Rightarrow> (Raised e, w3)
               | (Returned _, w3) \<Rightarrow> (Returned (), set_file_date E p f w3)))))"

text \<open>Line 69, the inner loop; an exception leaves it.\<close>

fun download_photos ::
  "'img env \<Rightarrow> coordinate option \<Rightarrow> path \<Rightarrow> photo list \<Rightarrow> world \<Rightarrow> unit outcome \<times> world" where
  "download_photos E coordinate group_path [] w = (Returned (), w)"
| "download_photos E coordinate group_path (p # ps) w =
     (case download_photo E coordinate group_path p w of
        (Raised e, w') \<Rightarrow> (Raised e, w')
      | (Returned _, w') \<Rightarrow> download_photos E coordinate group_path ps w')"

text \<open>Line 67: \<^verbatim>\<open>download_dir / sanitize_filepath(album["title"].replace("/", " "))\<close>.\<close>

definition group_path_of :: "'img env \<Rightarrow> path \<Rightarrow> album \<Rightarrow> path" where
  "group_path_of E download_dir a =
     joinpath download_dir
       (sanitize_filepath E (map (\<lambda>c. if c = CHR ''/'' then CHR '' '' else c) (album_title a)))"

text \<open>Lines 66-102, the body of the outer loop for one album.\<close>

definition download_album ::
  "'img env \<Rightarrow> coordinate option \<Rightarrow> path \<Rightarrow> album \<Rightarrow> world \<Rightarrow> unit outcome \<times> world" where
  "download_album E coordinate download_dir a w =
     (case mkdir_exist_ok (group_path_of E download_dir a)
             (log_call INFO (''Downloading album: '' @ album_title a) w) of
        Inl e \<Rightarrow> (Raised e, log_call INFO (''Downloading album: '' @ album_title a) w)
      | Inr w1 \<Rightarrow>
          download_photos E coordinate (group_path_of E download_dir a) (photos a) w1)"

fun download_album_list ::
  "'img env \<Rightarrow> coordinate option \<Rightarrow> path \<Rightarrow> album list \<Rightarrow> world \<Rightarrow> unit outcome \<times> world" where
  "download_album_list E coordinate download_dir [] w = (Returned (), w)"
| "download_album_list E coordinate download_dir (a # as) w =
     (case download_album E coordinate download_dir a w of
        (Raised e, w') \<Rightarrow> (Raised e, w')
      | (Returned _, w') \<Rightarrow> download_album_list E coordinate download_dir as w')"

text \<open>Lines 57-104.\<close>

definition download_albums ::
  "'img env \<Rightarrow> album list \<Rightarrow> path \<Rightarrow> coordinate option \<Rightarrow> world \<Rightarrow> bool outcome \<times> world" where
  "download_albums E albums download_dir coordinate w =
     (if \<not> is_dir w (str_of_path download_dir)
      then (Returned False,
            log_call ERROR
              (''Does not exist or is not a directory: '' @ str_of_path download_dir) w)
      else
        (case download_album_list E coordinate download_dir albums w of
           (Raised e, w') \<Rightarrow> (Raised e, w')
         | (Returned _, w') \<Rightarrow> (Returned True, w')))"

section \<open>\<^verbatim>\<open>decimal_to_dms\<close>\<close>

text \<open>
  The argument of \<^verbatim>\<open>decimal_to_dms\<close> is a Python \<^verbatim>\<open>float\<close>, an IEEE 754 double.  A
  finite double is kept as the rational number it denotes; the two zeros are not
  told apart, which no comparison and no conversion to \<^verbatim>\<open>int\<close> in the program can see.
  Arithmetic is exact arithmetic followed by rounding to the nearest double, ties to
  even: \<open>ilog2 q\<close> is the binary exponent of a positive \<open>q\<close>, that is
  \<open>2 powi ilog2 q \<le> q < 2 powi (ilog2 q + 1)\<close>; a double has 53 significant bits and,
  below \<open>2 powi (- 1022)\<close>, the fixed spacing \<open>2 powi (- 1074)\<close>.
\<close>

function ilog2 :: "rat \<Rightarrow> int" where
  "ilog2 q =
     (if q \<le> 0 then 0
      else if q < 1 then ilog2 (2 * q) - 1
      else if 2 \<le> q then ilog2 (q / 2) + 1
      else 0)"
  by pat_completeness auto
termination
proof (relation "measure (\<lambda>q. nat \<bar>\<lfloor>log 2 (real_of_rat q)\<rfloor>\<bar>)")
  show "wf (measure (\<lambda>q. nat \<bar>\<lfloor>log 2 (real_of_rat q)\<rfloor>\<bar>))" by simp
next
  fix q :: rat
  assume a: "\<not> q \<le> 0" "q < 1"
  then have pos: "0 < real_of_rat q" and lt: "real_of_rat q < 1"
    by (simp_all add: of_rat_less_1_iff)
  have "log 2 (real_of_rat (2 * q)) = log 2 (real_of_rat q) + 1"
    using pos by (simp add: of_rat_mult log_mult)
  then have f: "\<lfloor>log 2 (real_of_rat (2 * q))\<rfloor> = \<lfloor>log 2 (real_of_rat q)\<rfloor> + 1"
    by simp
  have "log 2 (real_of_rat q) < 0" using pos lt by simp
  then have "\<lfloor>log 2 (real_of_rat q)\<rfloor> < 0" by (simp add: floor_less_iff)
  then show "(2 * q, q) \<in> measure (\<lambda>q. nat \<bar>\<lfloor>log 2 (real_of_rat q)\<rfloor>\<bar>)"
    unfolding in_measure f by linarith
next
  fix q :: rat
  assume a: "\<not> q \<le> 0" "\<not> q < 1" "2 \<le> q"
  then have ge: "2 \<le> real_of_rat q"
    by (metis of_rat_less_eq of_rat_numeral_eq)
  from a have pos: "0 < real_of_rat q" by simp
  have "log 2 (real_of_rat (q / 2)) = log 2 (real_of_rat q) - 1"
    using pos by (simp add: of_rat_divide log_divide)
  then have f: "\<lfloor>log 2 (real_of_rat (q / 2))\<rfloor> = \<lfloor>log 2 (real_of_rat q)\<rfloor> - 1"
    by simp
  have "1 \<le> log 2 (real_of_rat q)" using ge pos by (simp add: le_log_iff)
  then have "1 \<le> \<lfloor>log 2 (real_of_rat q)\<rfloor>" by (simp add: le_floor_iff)
  then show "(q / 2, q) \<in> measure (\<lambda>q. nat \<bar>\<lfloor>log 2 (real_of_rat q)\<rfloor>\<bar>)"
    unfolding in_measure f by linarith
qed

declare ilog2.simps [simp del]

text \<open>The nearest integer, ties to the even one.\<close>

definition round_half_even :: "rat \<Rightarrow> int" where
  "round_half_even q =
     (if q - of_int \<lfloor>q\<rfloor> < 1 / 2 then \<lfloor>q\<rfloor>
      else if 1 / 2 < q - of_int \<lfloor>q\<rfloor> then \<lfloor>q\<rfloor> + 1
      else if even \<lfloor>q\<rfloor> then \<lfloor>q\<rfloor> else \<lfloor>q\<rfloor> + 1)"

text \<open>The spacing of the doubles around \<open>q\<close> is \<open>2 powi expo q\<close>.\<close>

definition expo :: "rat \<Rightarrow> int" where
  "expo q = max (ilog2 \<bar>q\<bar> - 52) (- 1074)"

text \<open>Rounding to the nearest double, without the overflow to infinity.\<close>

definition rnd :: "rat \<Rightarrow> rat" where
  "rnd q = sgn q * of_int (round_half_even (\<bar>q\<bar> / 2 powi expo q)) * 2 powi expo q"

text \<open>A Python \<^verbatim>\<open>float\<close>: a finite double, an infinity, or NaN.\<close>

datatype pyfloat = Finite rat | PosInf | NegInf | NaN

text \<open>The result of an arithmetic operation whose exact value is \<open>q\<close>: at
  \<open>2 ^ 1024\<close> and beyond the rounded value is an infinity.\<close>

definition fl :: "rat \<Rightarrow> pyfloat" where
  "fl q =
     (if 2 ^ 1024 \<le> \<bar>rnd q\<bar> then (if 0 < q then PosInf else NegInf) else Finite (rnd q))"

text \<open>The rationals that are doubles.\<close>

definition is_double :: "rat \<Rightarrow> bool" where
  "is_double q = (rnd q = q \<and> \<bar>q\<bar> < 2 ^ 1024)"

text \<open>\<^verbatim>\<open>x < 0\<close>, \<^verbatim>\<open>x > 0\<close>, \<^verbatim>\<open>abs(x)\<close>, \<^verbatim>\<open>-x\<close> and \<^verbatim>\<open>x * k\<close> for an \<^verbatim>\<open>int\<close> constant \<open>k\<close> that
  is a double; every comparison with NaN is false.\<close>

definition float_lt0 :: "pyfloat \<Rightarrow> bool" where
  "float_lt0 x = (case x of Finite q \<Rightarrow> q < 0 | NegInf \<Rightarrow> True | _ \<Rightarrow> False)"

definition float_gt0 :: "pyfloat \<Rightarrow> bool" where
  "float_gt0 x = (case x of Finite q \<Rightarrow> 0 < q | PosInf \<Rightarrow> True | _ \<Rightarrow> False)"

definition float_abs :: "pyfloat \<Rightarrow> pyfloat" where
  "float_abs x = (case x of Finite q \<Rightarrow> Finite \<bar>q\<bar> | NaN \<Rightarrow> NaN | _ \<Rightarrow> PosInf)"

definition float_neg :: "pyfloat \<Rightarrow> pyfloat" where
  "float_neg x =
     (case x of Finite q \<Rightarrow> Finite (- q) | PosInf \<Rightarrow> NegInf | NegInf \<Rightarrow> PosInf | NaN \<Rightarrow> NaN)"

definition float_mul :: "pyfloat \<Rightarrow> rat \<Rightarrow> pyfloat" where
  "float_mul x k =
     (case x of
        Finite q \<Rightarrow> fl (q * k)
      | PosInf \<Rightarrow> (if k = 0 then NaN else if 0 < k then PosInf else NegInf)
      | NegInf \<Rightarrow> (if k = 0 then NaN else if 0 < k then NegInf else PosInf)
      | NaN \<Rightarrow> NaN)"

text \<open>Rounding towards zero; C's \<^verbatim>\<open>fmod\<close>, which is exact and has the sign of its first
  argument.\<close>

definition trunc :: "rat \<Rightarrow> int" where
  "trunc q = (if 0 \<le> q then \<lfloor>q\<rfloor> else \<lceil>q\<rceil>)"

definition fmod :: "rat \<Rightarrow> rat \<Rightarrow> rat" where
  "fmod v w = v - w * of_int (trunc (v / w))"

text \<open>
  \<^verbatim>\<open>divmod(v, wx)\<close> for a float \<open>v\<close> and a non-zero \<^verbatim>\<open>int\<close> constant \<open>wx\<close> that is a double,
  as CPython's \<^verbatim>\<open>float_divmod\<close> computes it: \<^verbatim>\<open>mod = fmod(vx, wx)\<close>,
  \<^verbatim>\<open>div = (vx - mod) / wx\<close>; if \<^verbatim>\<open>mod\<close> is non-zero and its sign differs from that of
  \<^verbatim>\<open>wx\<close>, then \<^verbatim>\<open>mod += wx\<close> and \<^verbatim>\<open>div -= 1.0\<close>; the quotient is \<^verbatim>\<open>floor(div)\<close>, plus one if
  \<^verbatim>\<open>div - floor(div) > 0.5\<close>, and zero if \<^verbatim>\<open>div\<close> is zero.  For an infinity or NaN
  \<^verbatim>\<open>fmod\<close> gives NaN, and so are both results.
\<close>

definition float_divmod :: "pyfloat \<Rightarrow> rat \<Rightarrow> pyfloat \<times> pyfloat" where
  "float_divmod v wx =
     (case v of
        Finite vx \<Rightarrow>
          (let md0 = fmod vx wx;
               dv0 = rnd (rnd (vx - md0) / wx);
               fix = (md0 \<noteq> 0 \<and> (wx < 0) \<noteq> (md0 < 0));
               md = (if fix then rnd (md0 + wx) else md0);
               dv = (if fix then rnd (dv0 - 1) else dv0);
               floordiv =
                 (if dv \<noteq> 0
                  then (if 1 / 2 < rnd (dv - of_int \<lfloor>dv\<rfloor>) then rnd (of_int \<lfloor>dv\<rfloor> + 1)
                        else of_int \<lfloor>dv\<rfloor>)
                  else 0)
           in (Finite floordiv, Finite md))
      | _ \<Rightarrow> (NaN, NaN))"

text \<open>\<^verbatim>\<open>int(x)\<close>: truncation; NaN raises \<^verbatim>\<open>ValueError\<close>, an infinity
  \<^verbatim>\<open>OverflowError\<close>.\<close>

definition float_int :: "pyfloat \<Rightarrow> error + int" where
  "float_int x =
     (case x of Finite q \<Rightarrow> Inr (trunc q) | NaN \<Rightarrow> Inl ValueError | _ \<Rightarrow> Inl OverflowError)"

text \<open>Lines 25-31.\<close>

definition propagate_sign ::
  "bool \<Rightarrow> pyfloat \<times> pyfloat \<times> pyfloat \<Rightarrow> pyfloat \<times> pyfloat \<times> pyfloat" where
  "propagate_sign negative t =
     (case t of (degrees, minutes, seconds) \<Rightarrow>
        if negative then
          if float_gt0 degrees then (float_neg degrees, minutes, seconds)
          else if float_gt0 minutes then (degrees, float_neg minutes, seconds)
          else (degrees, minutes, float_neg seconds)
        else (degrees, minutes, seconds))"

text \<open>Line 32: the three conversions, from left to right.\<close>

definition int_triple :: "pyfloat \<times> pyfloat \<times> pyfloat \<Rightarrow> error + dms" where
  "int_triple t =
     (case t of (degrees, minutes, seconds) \<Rightarrow>
        (case float_int degrees of
           Inl e \<Rightarrow> Inl e
         | Inr d \<Rightarrow>
             (case float_int minutes of
                Inl e \<Rightarrow> Inl e
              | Inr m \<Rightarrow>
                  (case float_int seconds of
                     Inl e \<Rightarrow> Inl e
                   | Inr s \<Rightarrow> Inr (d, m, s)))))"

text \<open>Lines 19-32.\<close>

definition decimal_to_dms :: "pyfloat \<Rightarrow> error + dms" where
  "decimal_to_dms decimal =
     (case float_divmod (float_mul (float_abs decimal) 3600) 60 of (minutes0, seconds) \<Rightarrow>
      case float_divmod minutes0 60 of (degrees, minutes) \<Rightarrow>
        int_triple (propagate_sign (float_lt0 decimal) (degrees, minutes, seconds)))"

text \<open>
  The inverse reconstruction in the words of the specification: degrees plus
  minutes over 60 plus seconds over 3600, with the sign read off the signed component.
\<close>

definition dms_to_decimal :: "dms \<Rightarrow> rat" where
  "dms_to_decimal t =
     (case t of (D, M, S) \<Rightarrow>
        (if D < 0 \<or> M < 0 \<or> S < 0 then - 1 else 1)
          * (of_int \<bar>D\<bar> + of_int \<bar>M\<bar> / 60 + of_int \<bar>S\<bar> / 3600))"

text \<open>The triple that belongs to \<open>n\<close> whole seconds of a negative or non-negative
  input, used to state what \<^verbatim>\<open>decimal_to_dms\<close> computes.\<close>

definition dms_signed :: "bool \<Rightarrow> int \<Rightarrow> dms" where
  "dms_signed negative n =
     (if negative then
        (if 0 < n div 3600 then (- (n div 3600), n div 60 mod 60, n mod 60)
         else if 0 < n div 60 mod 60 then (n div 3600, - (n div 60 mod 60), n mod 60)
         else (n div 3600, n div 60 mod 60, - (n mod 60)))
      else (n div 3600, n div 60 mod 60, n mod 60))"

section \<open>\<^verbatim>\<open>lat_long_decimal_to_dms\<close> and \<^verbatim>\<open>main\<close>\<close>

text \<open>
  Lines 35-42.  Python's \<^verbatim>\<open>float(s)\<close> is the parameter \<open>float_of\<close>, with \<open>None\<close> where it
  raises \<^verbatim>\<open>ValueError\<close>.  Unpacking \<^verbatim>\<open>coord.split(",")\<close> into two names raises
  \<^verbatim>\<open>ValueError\<close> unless there are exactly two parts.  The first component is converted
  before the second string is parsed.
\<close>

definition lat_long_decimal_to_dms ::
  "(string \<Rightarrow> pyfloat option) \<Rightarrow> string \<Rightarrow> error + coordinate" where
  "lat_long_decimal_to_dms float_of coord =
     (case split_on CHR '','' coord of
        [N, W] \<Rightarrow>
          (case float_of N of
             None \<Rightarrow> Inl ValueError
           | Some n \<Rightarrow>
               (case decimal_to_dms n of
                  Inl e \<Rightarrow> Inl e
                | Inr a \<Rightarrow>
                    (case float_of W of
                       None \<Rightarrow> Inl ValueError
                     | Some w \<Rightarrow>
                         (case decimal_to_dms w of
                            Inl e \<Rightarrow> Inl e
                          | Inr b \<Rightarrow> Inr (a, b)))))
      | _ \<Rightarrow> Inl ValueError)"

text \<open>The floats for which \<^verbatim>\<open>decimal_to_dms\<close> returns: the finite ones whose product
  with 3600 is finite.\<close>

definition dms_convertible :: "pyfloat \<Rightarrow> bool" where
  "dms_convertible x = (case float_mul (float_abs x) 3600 of Finite _ \<Rightarrow> True | _ \<Rightarrow> False)"

text \<open>The parsed command line: \<^verbatim>\<open>--token\<close>, \<^verbatim>\<open>--site\<close>, \<^verbatim>\<open>--directory\<close>, \<^verbatim>\<open>--geo\<close>,
  \<^verbatim>\<open>--verbose\<close>.\<close>

record args =
  token :: string
  site :: string
  directory :: string
  geo :: "string option"
  verbose :: bool

text \<open>Lines 218-220: \<^verbatim>\<open>if args.geo:\<close> is false for a missing and for an empty string.\<close>

definition geo_coordinate ::
  "(string \<Rightarrow> pyfloat option) \<Rightarrow> string option \<Rightarrow> error + coordinate option" where
  "geo_coordinate float_of g =
     (case g of
        None \<Rightarrow> Inr None
      | Some s \<Rightarrow>
          (if s = [] then Inr None
           else (case lat_long_decimal_to_dms float_of s of
                   Inl e \<Rightarrow> Inl e
                 | Inr c \<Rightarrow> Inr (Some c))))"

text \<open>
  Lines 191-222.  \<^verbatim>\<open>get_albums\<close>, which posts two kinds of requests and parses the
  answers, is a parameter: it gives the albums or raises.  The log level is not
  modelled, the world records the calls of the \<^verbatim>\<open>logging\<close> functions.
\<close>

definition main ::
  "'img env \<Rightarrow> (string \<Rightarrow> pyfloat option) \<Rightarrow> (string \<Rightarrow> string \<Rightarrow> error + album list)
     \<Rightarrow> args \<Rightarrow> world \<Rightarrow> int outcome \<times> world" where
  "main E float_of get_albums a w =
     (case get_albums (token a) (site a) of
        Inl e \<Rightarrow> (Raised e, w)
      | Inr albums \<Rightarrow>
          (case geo_coordinate float_of (geo a) of
             Inl e \<Rightarrow> (Raised e, w)
           | Inr coordinate \<Rightarrow>
               (case download_albums E albums (path_of_str (directory a)) coordinate w of
                  (Raised e, w') \<Rightarrow> (Raised e, w')
                | (Returned success, w') \<Rightarrow> (Returned (if success then 0 else 1), w'))))"

text \<open>
  Lines 225-226: the script calls \<^verbatim>\<open>main()\<close> as a statement, so the value returned is
  dropped.  The interpreter then ends with status 0; an exception that nothing catches
  ends it with status 1.
\<close>

definition exit_status ::
  "'img env \<Rightarrow> (string \<Rightarrow> pyfloat option) \<Rightarrow> (string \<Rightarrow> string \<Rightarrow> error + album list)
     \<Rightarrow> args \<Rightarrow> world \<Rightarrow> int" where
  "exit_status E float_of get_albums a w =
     (case fst (main E float_of get_albums a w) of Returned r \<Rightarrow> 0 | Raised e \<Rightarrow> 1)"

section \<open>When the calls inside the loops return\<close>






section \<open>Concrete inputs\<close>

text \<open>
  An environment for running the model on concrete inputs: sanitizers that leave the
  names used below as they are (none of them has a character that \<^verbatim>\<open>pathvalidate\<close>
  changes), one fixed token, a server that answers every request with the four bytes
  \<^verbatim>\<open>JPEG\<close>, and an EXIF library whose image is the bytes with the list of assigned
  attributes and whose \<^verbatim>\<open>get_file\<close> appends \<^verbatim>\<open>+GPS\<close> to the bytes.
\<close>

definition example_env :: "(bytes \<times> (string \<times> exif_value) list) env" where
  "example_env =
     \<lparr>sanitize_filename = (\<lambda>s. s),
      sanitize_filepath = (\<lambda>s. s),
      uuid4 = (\<lambda>n. ''123e4567-e89b-42d3-a456-426614174000''),
      http_get = (\<lambda>n u. Response [''JPEG''] False),
      exif_Image = (\<lambda>b. Inr (b, [])),
      exif_setattr = (\<lambda>i a v. Inr (fst i, snd i @ [(a, v)])),
      exif_get_file = (\<lambda>i. Inr (fst i @ ''+GPS'')),
      strftime = (\<lambda>d. ''202001010000'')\<rparr>"

definition world_of :: "(string \<times> node) list \<Rightarrow> world" where
  "world_of xs = \<lparr>fs = map_of xs, gets = [], logs = [], uuids = 0, clock = 0\<rparr>"

definition one_photo_album :: "string \<Rightarrow> string \<Rightarrow> album list" where
  "one_photo_album a t =
     [\<lparr>album_title = a,
       photos = [\<lparr>photo_id = ''1'', photo_title = t, url = ''u1'', capture_date = None\<rparr>]\<rparr>]"

definition two_photo_album :: "string \<Rightarrow> string \<Rightarrow> string \<Rightarrow> album list" where
  "two_photo_album a t1 t2 =
     [\<lparr>album_title = a,
       photos = [\<lparr>photo_id = ''1'', photo_title = t1, url = ''u1'', capture_date = None\<rparr>,
                 \<lparr>photo_id = ''2'', photo_title = t2, url = ''u2'', capture_date = Some 0\<rparr>]\<rparr>]"

text \<open>The same environment with an EXIF library whose \<^verbatim>\<open>get_file\<close> raises
  \<^verbatim>\<open>RuntimeError\<close>.\<close>

definition unserialisable_env :: "(bytes \<times> (string \<times> exif_value) list) env" where
  "unserialisable_env =
     example_env\<lparr>exif_get_file := (\<lambda>i. Inl (RuntimeError ''cannot serialise''))\<rparr>"

text \<open>
  The same environment with an EXIF library that stores the three components of a
  coordinate as unsigned numbers: the assignment of a triple with a negative component
  raises an exception that is not a \<^verbatim>\<open>RuntimeError\<close>.
\<close>

definition unsigned_env :: "(bytes \<times> (string \<times> exif_value) list) env" where
  "unsigned_env =
     example_env\<lparr>exif_setattr := (\<lambda>i a v.
        case v of
          DmsValue (d, m, s) \<Rightarrow>
            if d < 0 \<or> m < 0 \<or> s < 0 then Inl (OtherError ''PackError'')
            else Inr (fst i, snd i @ [(a, v)])
        | RefValue r \<Rightarrow> Inr (fst i, snd i @ [(a, v)]))\<rparr>"

text \<open>Python's \<^verbatim>\<open>float\<close> on the two strings \<^verbatim>\<open>nan\<close> and \<^verbatim>\<open>0\<close>; the other strings are
  not used.\<close>

definition example_float :: "string \<Rightarrow> pyfloat option" where
  "example_float s =
     (if s = ''nan'' then Some NaN else if s = ''0'' then Some (Finite 0) else None)"

definition example_args :: "string \<Rightarrow> args" where
  "example_args d = \<lparr>token = ''t'', site = ''s'', directory = d, geo = None, verbose = False\<rparr>"

text \<open>Python's \<^verbatim>\<open>float\<close> on the two strings \<^verbatim>\<open>40\<close> and \<^verbatim>\<open>-74\<close>.\<close>

definition degrees_float :: "string \<Rightarrow> pyfloat option" where
  "degrees_float s =
     (if s = ''40'' then Some (Finite 40) else if s = ''-74'' then Some (Finite (- 74)) else None)"

text \<open>The command line with \<^verbatim>\<open>--geo\<close>.\<close>

definition geo_args :: "string \<Rightarrow> string \<Rightarrow> args" where
  "geo_args d g = \<lparr>token = ''t'', site = ''s'', directory = d, geo = Some g, verbose = False\<rparr>"

section \<open>Properties\<close>

lemmas model_defs =
  download_albums_def download_album_def download_photo_def group_path_of_def
  mkdir_exist_ok_def open_wb_def write_bytes_def touch_mt_def fetch_def store_exif_def
  tag_image_def except_RuntimeError_def set_file_date_def rename_unique_def add_jpg_def
  is_dir_def exists_path_def log_call_def joinpath_def path_of_str_def str_of_path_def
  anchor_of_def parent_def dirname_def

lemmas example_defs =
  example_env_def world_of_def one_photo_album_def two_photo_album_def

subsection \<open>The name a photo is written under\<close>

text \<open>
  Claim C3.  For a photo that is not skipped, \<^verbatim>\<open>.jpg\<close> is to be appended exactly when
  the sanitized file name has no extension, whatever the characters of the target
  directory and of the album directory.  The code tests for a dot in the whole path
  string: with the target directory \<^verbatim>\<open>/data/v1.2\<close>, the album \<^verbatim>\<open>trip\<close> and the title
  \<^verbatim>\<open>beach\<close>, which has no extension, the run succeeds, the photo is written to
  \<^verbatim>\<open>/data/v1.2/trip/beach\<close>, and nothing is written to \<^verbatim>\<open>/data/v1.2/trip/beach.jpg\<close>.
\<close>

theorem C3_jpg_suffix_depends_on_directory:
  "fst (download_albums example_env (one_photo_album ''trip'' ''beach'')
          (path_of_str ''/data/v1.2'') None (world_of [(''/data/v1.2'', Dir)]))
     = Returned True
   \<and> fs (snd (download_albums example_env (one_photo_album ''trip'' ''beach'')
          (path_of_str ''/data/v1.2'') None (world_of [(''/data/v1.2'', Dir)])))
        ''/data/v1.2/trip/beach''
     = Some (File ''JPEG'' (Written 1))
   \<and> fs (snd (download_albums example_env (one_photo_album ''trip'' ''beach'')
          (path_of_str ''/data/v1.2'') None (world_of [(''/data/v1.2'', Dir)])))
        ''/data/v1.2/trip/beach.jpg''
     = None"
  by (simp add: model_defs example_defs Let_def)

text \<open>
  Claim C4.  The unique-token rename is to be applied exactly when the sanitized file
  name is \<^verbatim>\<open>file.jpg\<close>; a name that only contains \<^verbatim>\<open>file.jpg\<close> is to be written as it
  is.  The code tests whether \<^verbatim>\<open>file.jpg\<close> occurs anywhere in the path string and then
  cuts the last eight characters: the title \<^verbatim>\<open>profile.jpg\<close> in the album \<^verbatim>\<open>trip\<close> of
  \<^verbatim>\<open>/data\<close> is written to \<^verbatim>\<open>/data/trip/pro\<close> followed by the token and \<^verbatim>\<open>.jpg\<close>,
  and nothing is written to \<^verbatim>\<open>/data/trip/profile.jpg\<close>.
\<close>

theorem C4_rename_on_substring:
  "fst (download_albums example_env (one_photo_album ''trip'' ''profile.jpg'')
          (path_of_str ''/data'') None (world_of [(''/data'', Dir)]))
     = Returned True
   \<and> fs (snd (download_albums example_env (one_photo_album ''trip'' ''profile.jpg'')
          (path_of_str ''/data'') None (world_of [(''/data'', Dir)])))
        ''/data/trip/pro123e4567-e89b-42d3-a456-426614174000.jpg''
     = Some (File ''JPEG'' (Written 1))
   \<and> fs (snd (download_albums example_env (one_photo_album ''trip'' ''profile.jpg'')
          (path_of_str ''/data'') None (world_of [(''/data'', Dir)])))
        ''/data/trip/profile.jpg''
     = None"
  by (simp add: model_defs example_defs Let_def)

subsection \<open>The skip test\<close>

lemma fs_log_call [simp]: "fs (log_call l m w) = fs w"
  and gets_log_call [simp]: "gets (log_call l m w) = gets w"
  and uuids_log_call [simp]: "uuids (log_call l m w) = uuids w"
  and clock_log_call [simp]: "clock (log_call l m w) = clock w"
  by (simp_all add: log_call_def)


text \<open>
  Claim C9.  When the path \<^verbatim>\<open>group_path / sanitize_filename(title)\<close> of a photo exists,
  the file there is to keep its bytes and its time stamp over the call of
  \<^verbatim>\<open>download_albums\<close>.  The iteration of that photo does leave everything but the log as
  it is, as the lemma above says.  But the test of line 72 looks at the name before
  lines 75-78 complete it, so a later iteration does not see that its own file exists:
  with \<^verbatim>\<open>/data/trip/a.jpg\<close> present, the photo titled \<^verbatim>\<open>a.jpg\<close> is skipped, and the next
  photo of the album, titled \<^verbatim>\<open>a\<close>, passes the test on \<^verbatim>\<open>/data/trip/a\<close> and is then
  written to \<^verbatim>\<open>/data/trip/a.jpg\<close>.  The call returns \<^verbatim>\<open>True\<close>, and the file of the
  skipped photo has new bytes and a new time stamp.
\<close>

theorem C9_skipped_file_overwritten:
  "exists_path (world_of [(''/data'', Dir), (''/data/trip'', Dir),
                          (''/data/trip/a.jpg'', File ''OLD'' (Written 0))])
     (str_of_path (joinpath (joinpath (path_of_str ''/data'') ''trip'') ''a.jpg''))
   \<and> fs (world_of [(''/data'', Dir), (''/data/trip'', Dir),
                   (''/data/trip/a.jpg'', File ''OLD'' (Written 0))]) ''/data/trip/a.jpg''
      = Some (File ''OLD'' (Written 0))
   \<and> fst (download_albums example_env (two_photo_album ''trip'' ''a.jpg'' ''a'') (path_of_str ''/data'') None
        (world_of [(''/data'', Dir), (''/data/trip'', Dir),
                   (''/data/trip/a.jpg'', File ''OLD'' (Written 0))])) = Returned True
   \<and> fs (snd (download_albums example_env (two_photo_album ''trip'' ''a.jpg'' ''a'') (path_of_str ''/data'') None
        (world_of [(''/data'', Dir), (''/data/trip'', Dir),
                   (''/data/trip/a.jpg'', File ''OLD'' (Written 0))]))) ''/data/trip/a.jpg''
      = Some (File ''JPEG'' (Touched ''202001010000''))
   \<and> gets (snd (download_albums example_env (two_photo_album ''trip'' ''a.jpg'' ''a'') (path_of_str ''/data'') None
        (world_of [(''/data'', Dir), (''/data/trip'', Dir),
                   (''/data/trip/a.jpg'', File ''OLD'' (Written 0))]))) = [''u2'']"
  by (simp add: model_defs example_defs Let_def)

text \<open>
  Claim C2.  A second run in the directory that a complete first run has left is to
  make no request.  The first run writes the photo titled \<^verbatim>\<open>beach\<close> to
  \<^verbatim>\<open>/data/trip/beach.jpg\<close>; since line 72 tests the name before line 76 appends
  \<^verbatim>\<open>.jpg\<close>, the second run, started in the state the first one left, tests
  \<^verbatim>\<open>/data/trip/beach\<close>, finds nothing and requests the photo again.  For the title
  \<^verbatim>\<open>beach.png\<close>, to which nothing is appended, the second run makes no request.
\<close>

theorem C2_rerun_downloads_again:
  "fst (download_albums example_env (one_photo_album ''trip'' ''beach'')
          (path_of_str ''/data'') None (world_of [(''/data'', Dir)])) = Returned True
   \<and> fs (snd (download_albums example_env (one_photo_album ''trip'' ''beach'')
          (path_of_str ''/data'') None (world_of [(''/data'', Dir)])))
       = [''/data'' \<mapsto> Dir, ''/data/trip'' \<mapsto> Dir,
          ''/data/trip/beach.jpg'' \<mapsto> File ''JPEG'' (Written 1)]
   \<and> gets (snd (download_albums example_env (one_photo_album ''trip'' ''beach'')
          (path_of_str ''/data'') None (world_of [(''/data'', Dir)]))) = [''u1'']
   \<and> fst (download_albums example_env (one_photo_album ''trip'' ''beach'')
          (path_of_str ''/data'') None
          (snd (download_albums example_env (one_photo_album ''trip'' ''beach'')
             (path_of_str ''/data'') None (world_of [(''/data'', Dir)])))) = Returned True
   \<and> gets (snd (download_albums example_env (one_photo_album ''trip'' ''beach'')
          (path_of_str ''/data'') None
          (snd (download_albums example_env (one_photo_album ''trip'' ''beach'')
             (path_of_str ''/data'') None (world_of [(''/data'', Dir)]))))) = [''u1'', ''u1'']
   \<and> gets (snd (download_albums example_env (one_photo_album ''trip'' ''beach.png'')
          (path_of_str ''/data'') None
          (snd (download_albums example_env (one_photo_album ''trip'' ''beach.png'')
             (path_of_str ''/data'') None (world_of [(''/data'', Dir)]))))) = [''u1'']"
  by (simp add: model_defs example_defs Let_def)

subsection \<open>The value returned by \<^verbatim>\<open>download_albums\<close>\<close>

















subsection \<open>Degrees, minutes and seconds\<close>

lemma ilog2_lower: "0 < q \<Longrightarrow> 2 powi (ilog2 q) \<le> q"
proof (induction q rule: ilog2.induct)
  case (1 q)
  show ?case
  proof (cases "q < 1")
    case True
    with 1 have "2 powi (ilog2 (2 * q)) \<le> 2 * q" by simp
    moreover have "ilog2 q = ilog2 (2 * q) - 1"
      using True "1.prems" by (subst ilog2.simps) simp
    ultimately show ?thesis by (simp add: power_int_diff)
  next
    case False
    show ?thesis
    proof (cases "2 \<le> q")
      case True
      with 1 False have "2 powi (ilog2 (q / 2)) \<le> q / 2" by simp
      moreover have "ilog2 q = ilog2 (q / 2) + 1"
        using True False "1.prems" by (subst ilog2.simps) simp
      ultimately show ?thesis by (simp add: power_int_add)
    next
      case F2: False
      then have "ilog2 q = 0" using False "1.prems" by (subst ilog2.simps) simp
      then show ?thesis using False by simp
    qed
  qed
qed

lemma ilog2_upper: "0 < q \<Longrightarrow> q < 2 powi (ilog2 q + 1)"
proof (induction q rule: ilog2.induct)
  case (1 q)
  show ?case
  proof (cases "q < 1")
    case True
    with 1 have "2 * q < 2 powi (ilog2 (2 * q) + 1)" by simp
    moreover have "ilog2 q = ilog2 (2 * q) - 1"
      using True "1.prems" by (subst ilog2.simps) simp
    ultimately show ?thesis by (simp add: power_int_add)
  next
    case False
    show ?thesis
    proof (cases "2 \<le> q")
      case True
      with 1 False have "q / 2 < 2 powi (ilog2 (q / 2) + 1)" by simp
      moreover have "ilog2 q = ilog2 (q / 2) + 1"
        using True False "1.prems" by (subst ilog2.simps) simp
      ultimately show ?thesis by (simp add: power_int_add)
    next
      case F2: False
      then have "ilog2 q = 0" using False "1.prems" by (subst ilog2.simps) simp
      then show ?thesis using F2 by simp
    qed
  qed
qed

lemma powi_less_imp_less: "(2::rat) powi a < 2 powi b \<Longrightarrow> a < b"
proof (rule ccontr)
  assume l: "(2::rat) powi a < 2 powi b" and "\<not> a < b"
  then have "b \<le> a" by simp
  then have "(2::rat) powi b \<le> 2 powi a" by (intro power_int_increasing) simp_all
  with l show False by simp
qed

lemma ilog2_eqI:
  assumes "2 powi L \<le> q" and "q < 2 powi (L + 1)"
  shows "ilog2 q = L"
proof -
  have "(0::rat) < 2 powi L" by (rule zero_less_power_int) simp
  from this assms(1) have pos: "0 < q" by (rule less_le_trans)
  have a: "(2::rat) powi L < 2 powi (ilog2 q + 1)"
    using assms(1) ilog2_upper [OF pos] by simp
  have b: "(2::rat) powi (ilog2 q) < 2 powi (L + 1)"
    using assms(2) ilog2_lower [OF pos] by simp
  from a have "L < ilog2 q + 1" by (rule powi_less_imp_less)
  moreover from b have "ilog2 q < L + 1" by (rule powi_less_imp_less)
  ultimately show ?thesis by simp
qed

paragraph \<open>Rounding to an integer\<close>

lemma rhe_of_int: "round_half_even (of_int n) = n"
  by (simp add: round_half_even_def)

lemma rhe_upper: "of_int (round_half_even x) \<le> x + 1 / 2"
  unfolding round_half_even_def by (auto simp: not_less) linarith+

lemma rhe_lower: "x - 1 / 2 \<le> of_int (round_half_even x)"
  unfolding round_half_even_def by (auto simp: not_less) linarith+

lemma rhe_ge_int: "of_int n \<le> x \<Longrightarrow> n \<le> round_half_even x"
proof -
  assume "of_int n \<le> x"
  then have "n \<le> \<lfloor>x\<rfloor>" by (simp add: le_floor_iff)
  moreover have "\<lfloor>x\<rfloor> \<le> round_half_even x" by (simp add: round_half_even_def)
  ultimately show ?thesis by simp
qed

lemma rhe_le_int: "x \<le> of_int n \<Longrightarrow> round_half_even x \<le> n"
proof (cases "x = of_int n")
  case True
  then show ?thesis by (simp add: rhe_of_int)
next
  case False
  assume "x \<le> of_int n"
  with False have "x < of_int n" by simp
  then have "\<lfloor>x\<rfloor> < n" by (simp add: floor_less_iff)
  moreover have "round_half_even x \<le> \<lfloor>x\<rfloor> + 1" by (simp add: round_half_even_def)
  ultimately show ?thesis by simp
qed

lemma rhe_eqI:
  assumes "of_int n - 1 / 2 < x" and "x < of_int n + 1 / 2"
  shows "round_half_even x = n"
proof -
  have "rat_of_int (round_half_even x) < of_int n + 1" using rhe_upper [of x] assms(2) by simp
  moreover have "rat_of_int n - 1 < of_int (round_half_even x)" using rhe_lower [of x] assms(1) by simp
  ultimately have "round_half_even x < n + 1" "n - 1 < round_half_even x"
    by (simp_all flip: of_int_less_iff [where 'a = rat])
  then show ?thesis by simp
qed

paragraph \<open>Rounding to a double\<close>

lemma rnd_0 [simp]: "rnd 0 = 0"
  by (simp add: rnd_def)

lemma powi_pos [simp]: "(0::rat) < 2 powi e"
  by (rule zero_less_power_int) simp

lemma rnd_pos: "0 < t \<Longrightarrow> rnd t = of_int (round_half_even (t / 2 powi expo t)) * 2 powi expo t"
  by (simp add: rnd_def)

lemma rnd_nonneg: "0 \<le> t \<Longrightarrow> 0 \<le> rnd t"
proof (cases "t = 0")
  case True
  then show ?thesis by simp
next
  case False
  assume "0 \<le> t"
  with False have t: "0 < t" by simp
  have "rat_of_int 0 \<le> t / 2 powi expo t" using t by simp
  then have "0 \<le> round_half_even (t / 2 powi expo t)" by (rule rhe_ge_int)
  then show ?thesis by (simp add: rnd_pos [OF t])
qed

lemma rnd_le_grid:
  assumes "0 < t" and "t \<le> of_int n * 2 powi expo t"
  shows "rnd t \<le> of_int n * 2 powi expo t"
proof -
  have "t / 2 powi expo t \<le> of_int n"
    using assms(2) by (simp add: pos_divide_le_eq)
  then have "round_half_even (t / 2 powi expo t) \<le> n" by (rule rhe_le_int)
  then have "rat_of_int (round_half_even (t / 2 powi expo t)) \<le> of_int n" by simp
  then show ?thesis
    unfolding rnd_pos [OF assms(1)] by (rule mult_right_mono) simp
qed

lemma rnd_ge_grid:
  assumes "0 < t" and "of_int n * 2 powi expo t \<le> t"
  shows "of_int n * 2 powi expo t \<le> rnd t"
proof -
  have "of_int n \<le> t / 2 powi expo t"
    using assms(2) by (simp add: pos_le_divide_eq)
  then have "n \<le> round_half_even (t / 2 powi expo t)" by (rule rhe_ge_int)
  then have "rat_of_int n \<le> of_int (round_half_even (t / 2 powi expo t))" by simp
  then show ?thesis
    unfolding rnd_pos [OF assms(1)] by (rule mult_right_mono) simp
qed

lemma expo_le_0:
  assumes "0 < t" and "t < 2 ^ 53"
  shows "expo t \<le> 0"
proof -
  have "2 powi (ilog2 t) \<le> t" using assms(1) by (rule ilog2_lower)
  also have "t < 2 powi 53" using assms(2) by simp
  finally have "ilog2 t < 53" by (rule powi_less_imp_less)
  then show ?thesis using assms(1) by (simp add: expo_def)
qed

lemma int_on_grid:
  assumes "e \<le> 0"
  shows "of_int (n * 2 ^ nat (- e)) * 2 powi e = rat_of_int n"
proof -
  have "(2::rat) powi e = 1 / 2 ^ nat (- e)"
    using assms by (simp add: power_int_def field_simps)
  then show ?thesis by simp
qed

lemma rnd_le_int:
  assumes "0 < t" and "t < 2 ^ 53" and "t \<le> of_int n"
  shows "rnd t \<le> of_int n"
proof -
  have e: "expo t \<le> 0" using assms(1,2) by (rule expo_le_0)
  have "t \<le> of_int (n * 2 ^ nat (- expo t)) * 2 powi expo t"
    unfolding int_on_grid [OF e] by (rule assms(3))
  from rnd_le_grid [OF assms(1) this] show ?thesis
    unfolding int_on_grid [OF e] .
qed

lemma rnd_ge_int:
  assumes "0 < t" and "t < 2 ^ 53" and "of_int n \<le> t"
  shows "of_int n \<le> rnd t"
proof -
  have e: "expo t \<le> 0" using assms(1,2) by (rule expo_le_0)
  have "of_int (n * 2 ^ nat (- expo t)) * 2 powi expo t \<le> t"
    unfolding int_on_grid [OF e] by (rule assms(3))
  from rnd_ge_grid [OF assms(1) this] show ?thesis
    unfolding int_on_grid [OF e] .
qed

lemma rnd_of_int:
  assumes "0 \<le> n" and "n < 2 ^ 53"
  shows "rnd (of_int n) = of_int n"
proof (cases "n = 0")
  case True
  then show ?thesis by simp
next
  case False
  with assms(1) have p: "(0::rat) < of_int n" by simp
  have l: "rat_of_int n < 2 ^ 53"
    using assms(2) by (metis of_int_less_iff of_int_numeral of_int_power)
  have "rnd (of_int n) \<le> of_int n" using p l by (rule rnd_le_int) simp
  moreover have "of_int n \<le> rnd (of_int n)" using p l by (rule rnd_ge_int) simp
  ultimately show ?thesis by simp
qed

paragraph \<open>\<^verbatim>\<open>divmod\<close> by 60\<close>

lemma floor_div60:
  fixes x :: rat
  assumes "0 \<le> x"
  shows "\<lfloor>x / 60\<rfloor> = \<lfloor>x\<rfloor> div 60"
proof (rule floor_unique)
  have n: "of_int \<lfloor>x\<rfloor> \<le> x" "x < of_int \<lfloor>x\<rfloor> + 1"
    using floor_correct [of x] by simp_all
  have "60 * (\<lfloor>x\<rfloor> div 60) \<le> \<lfloor>x\<rfloor>" by simp
  then have "rat_of_int (60 * (\<lfloor>x\<rfloor> div 60)) \<le> of_int \<lfloor>x\<rfloor>" by (simp only: of_int_le_iff)
  then have "60 * rat_of_int (\<lfloor>x\<rfloor> div 60) \<le> of_int \<lfloor>x\<rfloor>" by simp
  with n(1) have "60 * rat_of_int (\<lfloor>x\<rfloor> div 60) \<le> x" by linarith
  then show "of_int (\<lfloor>x\<rfloor> div 60) \<le> x / 60" by simp
  have "\<lfloor>x\<rfloor> + 1 \<le> 60 * (\<lfloor>x\<rfloor> div 60) + 60"
    using pos_mod_bound [of 60 "\<lfloor>x\<rfloor>"] mult_div_mod_eq [of 60 "\<lfloor>x\<rfloor>"] by linarith
  then have "rat_of_int (\<lfloor>x\<rfloor> + 1) \<le> of_int (60 * (\<lfloor>x\<rfloor> div 60) + 60)"
    by (simp only: of_int_le_iff)
  then have "rat_of_int \<lfloor>x\<rfloor> + 1 \<le> 60 * rat_of_int (\<lfloor>x\<rfloor> div 60) + 60" by simp
  with n(2) have "x < 60 * rat_of_int (\<lfloor>x\<rfloor> div 60) + 60" by linarith
  then show "x / 60 < of_int (\<lfloor>x\<rfloor> div 60) + 1" by simp
qed

lemma of_int_less_2p53: "n < 2 ^ 53 \<Longrightarrow> rat_of_int n < 2 ^ 53"
  by (metis of_int_less_iff of_int_numeral of_int_power)

lemma floor_less_2p53:
  fixes x :: rat
  assumes "x < 2 ^ 53"
  shows "\<lfloor>x\<rfloor> < 2 ^ 53"
proof -
  have "x < rat_of_int (2 ^ 53)" using assms by simp
  then show ?thesis by (simp only: floor_less_iff)
qed

lemma divmod60_exact:
  assumes "0 \<le> x" and "x < 2 ^ 53"
  shows "float_divmod (Finite x) 60 =
           (Finite (of_int (\<lfloor>x\<rfloor> div 60)), Finite (x - 60 * of_int (\<lfloor>x\<rfloor> div 60)))"
proof -
  define k where "k = \<lfloor>x\<rfloor> div 60"
  have n0: "0 \<le> \<lfloor>x\<rfloor>" using assms(1) by simp
  have n1: "\<lfloor>x\<rfloor> < 2 ^ 53" using assms(2) by (rule floor_less_2p53)
  have k0: "0 \<le> k" using n0 by (simp add: k_def pos_imp_zdiv_nonneg_iff)
  have k60: "60 * k \<le> \<lfloor>x\<rfloor>" by (simp add: k_def)
  have tr: "trunc (x / 60) = k"
    using assms(1) by (simp add: trunc_def floor_div60 k_def)
  have md: "fmod x 60 = x - 60 * of_int k" by (simp add: fmod_def tr)
  have "rat_of_int (60 * k) \<le> of_int \<lfloor>x\<rfloor>" using k60 by (simp only: of_int_le_iff)
  then have "60 * rat_of_int k \<le> of_int \<lfloor>x\<rfloor>" by simp
  then have md0: "0 \<le> x - 60 * rat_of_int k"
    using of_int_floor_le [of x] by linarith
  have b60: "0 \<le> 60 * k" "60 * k < 2 ^ 53" using k0 k60 n1 by linarith+
  have bk: "k < 2 ^ 53" using k0 b60(2) by linarith
  have r1: "rnd (60 * rat_of_int k) = 60 * rat_of_int k"
    using rnd_of_int [OF b60] by simp
  have r2: "rnd (rat_of_int k) = of_int k"
    using k0 bk by (rule rnd_of_int)
  have dv: "rnd (rnd (x - fmod x 60) / 60) = of_int k"
  proof -
    have "x - fmod x 60 = 60 * rat_of_int k" by (simp add: md)
    then have "rnd (x - fmod x 60) / 60 = rat_of_int k" by (simp add: r1)
    then show ?thesis by (simp only: r2)
  qed
  show ?thesis
    unfolding float_divmod_def Let_def pyfloat.case dv
    using md0 by (simp add: md k_def [symmetric])
qed

paragraph \<open>The triple\<close>

lemma rnd_small:
  assumes "0 \<le> t" and "t < 2 ^ 52"
  shows "0 \<le> rnd t" and "rnd t < 2 ^ 53"
    and "of_int \<lfloor>rnd t\<rfloor> - 1 < t" and "t < of_int \<lfloor>rnd t\<rfloor> + 1"
proof -
  show nn: "0 \<le> rnd t" using assms(1) by (rule rnd_nonneg)
  have t53: "t < 2 ^ 53" using assms(2) by simp
  have fl: "of_int \<lfloor>t\<rfloor> \<le> t" "t < of_int \<lfloor>t\<rfloor> + 1"
    using floor_correct [of t] by simp_all
  have "\<lfloor>t\<rfloor> < 2 ^ 52"
  proof -
    have "t < rat_of_int (2 ^ 52)" using assms(2) by simp
    then show ?thesis by (simp only: floor_less_iff)
  qed
  then have "\<lfloor>t\<rfloor> + 1 \<le> 2 ^ 52" by simp
  then have "rat_of_int (\<lfloor>t\<rfloor> + 1) \<le> of_int (2 ^ 52)" by (simp only: of_int_le_iff)
  then have up: "rat_of_int \<lfloor>t\<rfloor> + 1 \<le> 2 ^ 52" by simp
  show "rnd t < 2 ^ 53" and "of_int \<lfloor>rnd t\<rfloor> - 1 < t" and "t < of_int \<lfloor>rnd t\<rfloor> + 1"
  proof -
    consider "t = 0" | "0 < t" using assms(1) by fastforce
    then have "rnd t < 2 ^ 53 \<and> of_int \<lfloor>rnd t\<rfloor> - 1 < t \<and> t < of_int \<lfloor>rnd t\<rfloor> + 1"
    proof cases
      case 1
      then show ?thesis by simp
    next
      case 2
      have "t \<le> rat_of_int (\<lfloor>t\<rfloor> + 1)" using fl(2) by simp
      with 2 t53 have "rnd t \<le> rat_of_int (\<lfloor>t\<rfloor> + 1)" by (rule rnd_le_int)
      then have "rnd t \<le> rat_of_int \<lfloor>t\<rfloor> + 1" by simp
      moreover have "(2::rat) ^ 52 < 2 ^ 53" by simp
      ultimately have a: "rnd t < 2 ^ 53" using up by linarith
      from 2 t53 fl(1) have "rat_of_int \<lfloor>t\<rfloor> \<le> rnd t" by (rule rnd_ge_int)
      then have "\<lfloor>t\<rfloor> \<le> \<lfloor>rnd t\<rfloor>" by (simp only: le_floor_iff)
      then have "rat_of_int \<lfloor>t\<rfloor> \<le> of_int \<lfloor>rnd t\<rfloor>" by (simp only: of_int_le_iff)
      with fl(2) have b: "t < of_int \<lfloor>rnd t\<rfloor> + 1" by linarith
      have c: "of_int \<lfloor>rnd t\<rfloor> - 1 < t"
      proof (rule ccontr)
        assume "\<not> of_int \<lfloor>rnd t\<rfloor> - 1 < t"
        then have "t \<le> rat_of_int (\<lfloor>rnd t\<rfloor> - 1)" by simp
        with 2 t53 have "rnd t \<le> rat_of_int (\<lfloor>rnd t\<rfloor> - 1)" by (rule rnd_le_int)
        moreover have "rat_of_int \<lfloor>rnd t\<rfloor> \<le> rnd t" by (rule of_int_floor_le)
        ultimately show False by simp
      qed
      from a b c show ?thesis by simp
    qed
    then show "rnd t < 2 ^ 53" and "of_int \<lfloor>rnd t\<rfloor> - 1 < t" and "t < of_int \<lfloor>rnd t\<rfloor> + 1"
      by simp_all
  qed
qed

lemma fl_finite:
  assumes "0 \<le> rnd q" and "rnd q < 2 ^ 53"
  shows "fl q = Finite (rnd q)"
proof -
  have "(2::rat) ^ 53 \<le> 2 ^ 1024" by (rule power_increasing) simp_all
  with assms have "\<not> 2 ^ 1024 \<le> \<bar>rnd q\<bar>" by linarith
  then show ?thesis by (simp only: fl_def if_False)
qed

lemma trunc_of_int [simp]: "trunc (of_int n) = n"
  by (simp add: trunc_def)

lemma trunc_neg_of_int [simp]: "trunc (- of_int n) = - n"
  using trunc_of_int [of "- n"] by (simp only: of_int_minus)

lemma trunc_nonneg: "0 \<le> q \<Longrightarrow> trunc q = \<lfloor>q\<rfloor>"
  by (simp add: trunc_def)

lemma trunc_neg: "0 \<le> q \<Longrightarrow> trunc (- q) = - \<lfloor>q\<rfloor>"
  by (cases "q = 0") (simp_all add: trunc_def ceiling_def)

text \<open>The three floats before the conversion to int, in the range where the arithmetic is exact.\<close>

lemma dms_floats:
  assumes "\<bar>d\<bar> * 3600 < 2 ^ 52"
  shows "float_divmod (float_mul (float_abs (Finite d)) 3600) 60 =
           (Finite (of_int (\<lfloor>rnd (\<bar>d\<bar> * 3600)\<rfloor> div 60)),
            Finite (rnd (\<bar>d\<bar> * 3600) - 60 * of_int (\<lfloor>rnd (\<bar>d\<bar> * 3600)\<rfloor> div 60)))"
    and "float_divmod (Finite (of_int (\<lfloor>rnd (\<bar>d\<bar> * 3600)\<rfloor> div 60))) 60 =
           (Finite (of_int (\<lfloor>rnd (\<bar>d\<bar> * 3600)\<rfloor> div 3600)),
            Finite (of_int (\<lfloor>rnd (\<bar>d\<bar> * 3600)\<rfloor> div 60 mod 60)))"
proof -
  let ?x = "rnd (\<bar>d\<bar> * 3600)"
  let ?k = "\<lfloor>?x\<rfloor> div 60"
  have t0: "0 \<le> \<bar>d\<bar> * 3600" by simp
  note x = rnd_small [OF t0 assms]
  have m: "float_mul (float_abs (Finite d)) 3600 = Finite ?x"
    using fl_finite [OF x(1,2)] by (simp add: float_mul_def float_abs_def)
  show "float_divmod (float_mul (float_abs (Finite d)) 3600) 60 =
           (Finite (of_int ?k), Finite (?x - 60 * of_int ?k))"
    unfolding m using x(1,2) by (rule divmod60_exact)
  have n0: "0 \<le> \<lfloor>?x\<rfloor>" using x(1) by simp
  have n1: "\<lfloor>?x\<rfloor> < 2 ^ 53" using x(2) by (rule floor_less_2p53)
  have k0: "0 \<le> ?k" using n0 by (simp add: pos_imp_zdiv_nonneg_iff)
  have "60 * ?k \<le> \<lfloor>?x\<rfloor>" by simp
  with n1 k0 have "?k < 2 ^ 53" by linarith
  then have k1: "rat_of_int ?k < 2 ^ 53" by (rule of_int_less_2p53)
  have k0': "0 \<le> rat_of_int ?k" using k0 by simp
  have "float_divmod (Finite (of_int ?k)) 60 =
          (Finite (of_int (\<lfloor>rat_of_int ?k\<rfloor> div 60)),
           Finite (of_int ?k - 60 * of_int (\<lfloor>rat_of_int ?k\<rfloor> div 60)))"
    using k0' k1 by (rule divmod60_exact)
  moreover have "?k div 60 = \<lfloor>?x\<rfloor> div 3600" by (simp add: zdiv_zmult2_eq)
  moreover have "rat_of_int ?k - 60 * of_int (?k div 60) = of_int (?k mod 60)"
  proof -
    have "rat_of_int (?k mod 60) = of_int (?k - 60 * (?k div 60))"
      by (simp only: minus_mult_div_eq_mod)
    then show ?thesis by simp
  qed
  ultimately show "float_divmod (Finite (of_int ?k)) 60 =
           (Finite (of_int (\<lfloor>?x\<rfloor> div 3600)), Finite (of_int (?k mod 60)))"
    by simp
qed

lemma decimal_to_dms_value:
  assumes "\<bar>d\<bar> * 3600 < 2 ^ 52"
  shows "decimal_to_dms (Finite d) = Inr (dms_signed (d < 0) \<lfloor>rnd (\<bar>d\<bar> * 3600)\<rfloor>)"
proof -
  define x where "x = rnd (\<bar>d\<bar> * 3600)"
  define n where "n = \<lfloor>x\<rfloor>"
  define sec where "sec = x - 60 * rat_of_int (n div 60)"
  have t0: "0 \<le> \<bar>d\<bar> * 3600" by simp
  have x0: "0 \<le> x" unfolding x_def using t0 assms by (rule rnd_small(1))
  have n0: "0 \<le> n" using x0 by (simp add: n_def)
  have fsec: "\<lfloor>sec\<rfloor> = n mod 60"
  proof -
    have "sec = x - rat_of_int (60 * (n div 60))" by (simp add: sec_def)
    then have "\<lfloor>sec\<rfloor> = n - 60 * (n div 60)" by (simp only: floor_diff_of_int n_def)
    then show ?thesis by (simp only: minus_mult_div_eq_mod)
  qed
  have "60 * (n div 60) \<le> n" by simp
  then have "rat_of_int (60 * (n div 60)) \<le> of_int n" by (simp only: of_int_le_iff)
  then have "60 * rat_of_int (n div 60) \<le> of_int n" by simp
  then have sec0: "0 \<le> sec" unfolding sec_def n_def using of_int_floor_le [of x] by linarith
  have ts: "trunc sec = n mod 60" using sec0 fsec by (simp only: trunc_nonneg)
  have tn: "trunc (- sec) = - (n mod 60)" using sec0 fsec by (simp only: trunc_neg)
  have f1: "float_divmod (float_mul (float_abs (Finite d)) 3600) 60 =
              (Finite (of_int (n div 60)), Finite sec)"
    using dms_floats(1) [OF assms] by (simp only: x_def n_def sec_def)
  have f2: "float_divmod (Finite (of_int (n div 60))) 60 =
              (Finite (of_int (n div 3600)), Finite (of_int (n div 60 mod 60)))"
    using dms_floats(2) [OF assms] by (simp only: x_def n_def)
  have "decimal_to_dms (Finite d) = Inr (dms_signed (d < 0) n)"
    unfolding decimal_to_dms_def f1 f2 prod.case
    by (simp add: propagate_sign_def int_triple_def float_int_def float_gt0_def float_lt0_def
        float_neg_def dms_signed_def ts tn)
  then show ?thesis by (simp only: n_def x_def)
qed

lemma dms_signed_sum:
  assumes "0 \<le> n"
  shows "dms_to_decimal (dms_signed negative n) =
           (if negative \<and> 0 < n then - 1 else 1) * (rat_of_int n / 3600)"
proof -
  define j where "j = n div 3600"
  define m where "m = n div 60 mod 60"
  define s where "s = n mod 60"
  define k where "k = n div 60"
  have j0: "0 \<le> j" using assms by (simp add: j_def pos_imp_zdiv_nonneg_iff)
  have m0: "0 \<le> m" by (simp add: m_def)
  have s0: "0 \<le> s" by (simp add: s_def)
  have e1: "n = 60 * k + s" by (simp add: k_def s_def)
  have e2: "k = 60 * (k div 60) + m" by (simp add: k_def m_def)
  have e3: "k div 60 = j" by (simp add: k_def j_def zdiv_zmult2_eq)
  have n: "n = 3600 * j + 60 * m + s" using e1 e2 unfolding e3 by linarith
  then have "rat_of_int n = of_int (3600 * j + 60 * m + s)" by simp
  then have sum: "rat_of_int n / 3600 = of_int j + of_int m / 60 + of_int s / 3600"
    by simp
  have sg: "dms_signed b n =
     (if b then
        (if 0 < j then (- j, m, s) else if 0 < m then (j, - m, s) else (j, m, - s))
      else (j, m, s))" for b
    by (simp only: dms_signed_def j_def m_def s_def)
  show ?thesis
  proof (cases negative)
    case False
    then show ?thesis using j0 m0 s0 by (simp add: sg dms_to_decimal_def sum)
  next
    case True
    consider "0 < j" | "j = 0" "0 < m" | "j = 0" "m = 0" "0 < s" | "j = 0" "m = 0" "s = 0"
      using j0 m0 s0 by linarith
    then show ?thesis
    proof cases
      case 1
      then have "0 < n" using n m0 s0 by linarith
      with 1 True m0 s0 show ?thesis
        by (simp add: sg dms_to_decimal_def sum)
    next
      case 2
      then have "0 < n" using n s0 by linarith
      with 2 True s0 show ?thesis
        by (simp add: sg dms_to_decimal_def sum)
    next
      case 3
      then have "0 < n" using n by linarith
      with 3 True show ?thesis
        by (simp add: sg dms_to_decimal_def sum)
    next
      case 4
      then have "n = 0" using n by linarith
      then show ?thesis
        by (simp add: dms_signed_def dms_to_decimal_def)
    qed
  qed
qed

lemma expo_small:
  assumes "0 < t" and "t < 1"
  shows "expo t \<le> - 53"
proof -
  have "2 powi (ilog2 t) \<le> t" using assms(1) by (rule ilog2_lower)
  also have "t < 2 powi 0" using assms(2) by simp
  finally have "ilog2 t < 0" by (rule powi_less_imp_less)
  then show ?thesis using assms(1) by (simp add: expo_def)
qed

lemma rnd_lt_one:
  assumes "0 \<le> t" and "t < 1 - 1 / 2 ^ 54"
  shows "rnd t < 1"
proof (cases "t = 0")
  case True
  then show ?thesis by simp
next
  case False
  with assms(1) have t: "0 < t" by simp
  have t1: "t < 1" using assms(2) by simp
  define e where "e = expo t"
  define P :: rat where "P = 2 powi (- e)"
  have e: "e \<le> - 53" unfolding e_def using t t1 by (rule expo_small)
  have "(2::rat) powi 53 \<le> 2 powi (- e)" using e by (intro power_int_increasing) simp_all
  then have P53: "2 ^ 53 \<le> P" by (simp add: P_def)
  have Pe: "P * 2 powi e = 1" by (simp add: P_def flip: power_int_add)
  have P0: "0 < P" by (simp add: P_def)
  have x: "t / 2 powi e = t * P" by (simp add: P_def power_int_minus field_simps)
  have "t * P < (1 - 1 / 2 ^ 54) * P" using assms(2) P0 by (rule mult_strict_right_mono)
  also have "\<dots> = P - P / 2 ^ 54" by (simp add: algebra_simps)
  also have "\<dots> \<le> P - 1 / 2"
  proof -
    have "(2::rat) ^ 53 / 2 ^ 54 \<le> P / 2 ^ 54" using P53 by (simp add: divide_right_mono)
    then have "1 / 2 \<le> P / 2 ^ 54" by simp
    then show ?thesis by simp
  qed
  finally have "t * P + 1 / 2 < P" by simp
  with rhe_upper [of "t * P"] have "rat_of_int (round_half_even (t * P)) < P" by linarith
  then have "rat_of_int (round_half_even (t * P)) * 2 powi e < P * 2 powi e"
    by (rule mult_strict_right_mono) simp
  then show ?thesis
    unfolding rnd_pos [OF t] e_def [symmetric] x Pe .
qed

lemma rnd_evalI:
  assumes "2 powi L \<le> \<bar>q\<bar>" and "\<bar>q\<bar> < 2 powi (L + 1)"
    and "e = max (L - 52) (- 1074)"
    and "of_int m - 1 / 2 < \<bar>q\<bar> / 2 powi e" and "\<bar>q\<bar> / 2 powi e < of_int m + 1 / 2"
  shows "rnd q = sgn q * of_int m * 2 powi e"
proof -
  have "ilog2 \<bar>q\<bar> = L" using assms(1,2) by (rule ilog2_eqI)
  then have e: "expo q = e" by (simp add: expo_def assms(3))
  have "round_half_even (\<bar>q\<bar> / 2 powi e) = m" using assms(4,5) by (rule rhe_eqI)
  then show ?thesis by (simp add: rnd_def e)
qed

lemma scale3600:
  fixes a :: rat
  assumes "\<bar>a\<bar> < 1"
  shows "\<bar>a / 3600\<bar> < 1 / 3600"
proof -
  have "\<bar>a / 3600\<bar> = \<bar>a\<bar> / 3600" by simp
  also have "\<dots> < 1 / 3600" using assms by (rule divide_strict_right_mono) simp
  finally show ?thesis .
qed

lemma rnd_below_one: "rnd (1152921504606846975 / 1152921504606846976) = 1"
proof -
  have "rnd (1152921504606846975 / 1152921504606846976)
          = sgn (1152921504606846975 / 1152921504606846976) * of_int 9007199254740992 * 2 powi (- 53)"
    by (rule rnd_evalI [where L = "- 1"]) (simp_all add: power_int_minus)
  then show ?thesis by (simp add: power_int_minus)
qed

lemma double_below_3600th:
  "is_double (- (5124095576030431 / 18446744073709551616))"
proof -
  have "rnd (- (5124095576030431 / 18446744073709551616))
          = sgn (- (5124095576030431 / 18446744073709551616)) * of_int 5124095576030431 * 2 powi (- 64)"
    by (rule rnd_evalI [where L = "- 12"]) (simp_all add: power_int_minus)
  then show ?thesis by (simp add: is_double_def power_int_minus)
qed

lemma double_small: "is_double (- (1 / 8192))"
proof -
  have "rnd (- (1 / 8192)) = sgn (- (1 / 8192)) * of_int 4503599627370496 * 2 powi (- 65)"
    by (rule rnd_evalI [where L = "- 13"]) (simp_all add: power_int_minus)
  then show ?thesis by (simp add: is_double_def power_int_minus)
qed

lemma double_huge: "is_double (2 ^ 1023)"
proof -
  have "rnd (2 ^ 1023) = sgn (2 ^ 1023) * of_int (2 ^ 52) * 2 powi 971"
    by (rule rnd_evalI [where L = 1023]) simp_all
  then show ?thesis by (simp add: is_double_def)
qed

lemma overflow_huge: "float_mul (float_abs (Finite (2 ^ 1023))) 3600 = PosInf"
proof -
  have "rnd (2 ^ 1023 * 3600) = sgn (2 ^ 1023 * 3600) * of_int (3600 * 2 ^ 41) * 2 powi 982"
    by (rule rnd_evalI [where L = 1034]) simp_all
  then have "rnd (2 ^ 1023 * 3600) = 2 ^ 1023 * 3600" by simp
  then show ?thesis by (simp add: float_mul_def float_abs_def fl_def)
qed

lemma rnd_manhattan:
  "rnd (18747009346995327600 / 70368744177664) = 4576906578856281 / 17179869184"
proof -
  have "rnd (18747009346995327600 / 70368744177664)
          = sgn (18747009346995327600 / 70368744177664) * of_int 4576906578856281 * 2 powi (- 34)"
    by (rule rnd_evalI [where L = 18]) (simp_all add: power_int_minus)
  then show ?thesis by (simp add: power_int_minus)
qed

text \<open>
  Claim C6, as the code has it.  For every \<open>d\<close> with \<open>\<bar>d\<bar> * 3600 < 2 ^ 52\<close>,
  \<^verbatim>\<open>decimal_to_dms(d)\<close> returns a triple; the decimal reconstructed from it differs from
  \<open>d\<close> by less than one second of arc; for a non-negative \<open>d\<close> no component is negative,
  and for a negative \<open>d\<close> the only component that can be negative is the first non-zero
  one: degrees if non-zero, else minutes if non-zero, else seconds.  When all three are
  zero, none is negative.
\<close>

theorem C6_roundtrip_and_sign:
  assumes "\<bar>d\<bar> * 3600 < 2 ^ 52"
  shows "\<exists>D M S. decimal_to_dms (Finite d) = Inr (D, M, S)
           \<and> \<bar>d - dms_to_decimal (D, M, S)\<bar> < 1 / 3600
           \<and> (if d < 0
                then (if D \<noteq> 0 then D < 0 \<and> 0 \<le> M \<and> 0 \<le> S
                      else if M \<noteq> 0 then M < 0 \<and> 0 \<le> S
                      else S \<le> 0)
                else 0 \<le> D \<and> 0 \<le> M \<and> 0 \<le> S)"
proof -
  define t where "t = \<bar>d\<bar> * 3600"
  define n where "n = \<lfloor>rnd t\<rfloor>"
  have t0: "0 \<le> t" by (simp add: t_def)
  have tr: "t < 2 ^ 52" using assms by (simp add: t_def)
  note x = rnd_small [OF t0 tr]
  have n0: "0 \<le> n" using x(1) by (simp add: n_def)
  have lo: "rat_of_int n - 1 < t" and hi: "t < rat_of_int n + 1"
    using x(3,4) by (simp_all add: n_def)
  have v: "decimal_to_dms (Finite d) = Inr (dms_signed (d < 0) n)"
    using decimal_to_dms_value [OF assms] by (simp only: n_def t_def)
  have close: "\<bar>d - dms_to_decimal (dms_signed (d < 0) n)\<bar> < 1 / 3600"
  proof (cases "d < 0")
    case False
    then have "d = t / 3600" by (simp add: t_def)
    moreover have "dms_to_decimal (dms_signed (d < 0) n) = rat_of_int n / 3600"
      using False by (simp add: dms_signed_sum [OF n0])
    ultimately have "d - dms_to_decimal (dms_signed (d < 0) n) = (t - rat_of_int n) / 3600"
      by (simp add: diff_divide_distrib)
    moreover have "\<bar>t - rat_of_int n\<bar> < 1" using lo hi by linarith
    ultimately show ?thesis by (simp only: scale3600)
  next
    case True
    then have d: "d = - t / 3600" by (simp add: t_def)
    show ?thesis
    proof (cases "0 < n")
      case pos: True
      have "dms_to_decimal (dms_signed (d < 0) n) = - (rat_of_int n / 3600)"
        using True pos by (simp add: dms_signed_sum [OF n0])
      with d have "d - dms_to_decimal (dms_signed (d < 0) n) = (rat_of_int n - t) / 3600"
        by (simp add: diff_divide_distrib)
      moreover have "\<bar>rat_of_int n - t\<bar> < 1" using lo hi by linarith
      ultimately show ?thesis by (simp only: scale3600)
    next
      case False
      with n0 have z: "n = 0" by simp
      have "dms_to_decimal (dms_signed (d < 0) n) = 0"
        unfolding dms_signed_sum [OF n0] using z by simp
      with d have "d - dms_to_decimal (dms_signed (d < 0) n) = (- t) / 3600" by simp
      moreover have "\<bar>- t\<bar> < 1" using hi t0 z by simp
      ultimately show ?thesis by (simp only: scale3600)
    qed
  qed
  define j where "j = n div 3600"
  define m where "m = n div 60 mod 60"
  define s where "s = n mod 60"
  have j0: "0 \<le> j" using n0 by (simp add: j_def pos_imp_zdiv_nonneg_iff)
  have m0: "0 \<le> m" by (simp add: m_def)
  have s0: "0 \<le> s" by (simp add: s_def)
  have sg: "dms_signed b n =
     (if b then
        (if 0 < j then (- j, m, s) else if 0 < m then (j, - m, s) else (j, m, - s))
      else (j, m, s))" for b
    by (simp only: dms_signed_def j_def m_def s_def)
  obtain D M S where dms: "dms_signed (d < 0) n = (D, M, S)"
    by (cases "dms_signed (d < 0) n")
  have sign: "(if d < 0
                then (if D \<noteq> 0 then D < 0 \<and> 0 \<le> M \<and> 0 \<le> S
                      else if M \<noteq> 0 then M < 0 \<and> 0 \<le> S
                      else S \<le> 0)
                else 0 \<le> D \<and> 0 \<le> M \<and> 0 \<le> S)"
    using dms j0 m0 s0 unfolding sg by (auto split: if_splits)
  from v close sign show ?thesis unfolding dms by blast
qed

theorem C6_roundtrip_and_sign_witness:
  "\<bar>- (5207502596387591 / 70368744177664)\<bar> * 3600 < (2::rat) ^ 52
   \<and> decimal_to_dms (Finite (- (5207502596387591 / 70368744177664))) = Inr (- 74, 0, 11)
   \<and> \<bar>- (5207502596387591 / 70368744177664) - dms_to_decimal (- 74, 0, 11)\<bar> < 1 / 3600"
proof -
  have r: "\<bar>- (5207502596387591 / 70368744177664)\<bar> * 3600 < (2::rat) ^ 52" by simp
  have p: "\<bar>- (5207502596387591 / 70368744177664)\<bar> * 3600
             = (18747009346995327600 / 70368744177664 :: rat)" by simp
  have f: "\<lfloor>4576906578856281 / 17179869184 :: rat\<rfloor> = 266411"
    by (rule floor_unique) simp_all
  have v: "decimal_to_dms (Finite (- (5207502596387591 / 70368744177664))) = Inr (- 74, 0, 11)"
    unfolding decimal_to_dms_value [OF r] p rnd_manhattan f by (simp add: dms_signed_def)
  from C6_roundtrip_and_sign [OF r] v r show ?thesis by auto
qed

text \<open>
  Claim C6 as it is written says that for a negative \<open>d\<close> the sign is on exactly one
  component and that the reconstruction works for every \<open>d\<close>.  For the double
  \<open>- 1 / 8192\<close> the result is \<open>(0, 0, 0)\<close>, with no negative component; for the double
  \<open>2 ^ 1023\<close> the product with 3600 is infinite and the conversion to \<^verbatim>\<open>int\<close> raises.
\<close>

theorem C6_counterexample:
  "- (1 / 8192) < (0::rat)
   \<and> is_double (- (1 / 8192))
   \<and> decimal_to_dms (Finite (- (1 / 8192))) = Inr (0, 0, 0)
   \<and> is_double (2 ^ 1023)
   \<and> decimal_to_dms (Finite (2 ^ 1023)) = Inl ValueError"
proof -
  have r: "\<bar>- (1 / 8192)\<bar> * 3600 < (2::rat) ^ 52" by simp
  have p: "\<bar>- (1 / 8192)\<bar> * 3600 = (225 / 512 :: rat)" by simp
  have "rnd (225 / 512) = sgn (225 / 512) * of_int 7916483719987200 * 2 powi (- 54)"
    by (rule rnd_evalI [where L = "- 2"]) (simp_all add: power_int_minus)
  then have q: "rnd (225 / 512) = 225 / 512" by (simp add: power_int_minus)
  have f: "\<lfloor>225 / 512 :: rat\<rfloor> = 0" by (rule floor_unique) simp_all
  have "decimal_to_dms (Finite (- (1 / 8192))) = Inr (0, 0, 0)"
    unfolding decimal_to_dms_value [OF r] p q f by (simp add: dms_signed_def)
  moreover have "decimal_to_dms (Finite (2 ^ 1023)) = Inl ValueError"
    unfolding decimal_to_dms_def overflow_huge
    by (simp add: float_divmod_def propagate_sign_def float_lt0_def float_gt0_def float_neg_def
        int_triple_def float_int_def)
  ultimately show ?thesis using double_small double_huge by simp
qed

text \<open>
  Claim C10, as the code has it.  For every negative \<open>d\<close> with
  \<open>\<bar>d\<bar> * 3600 < 1 - 1 / 2 ^ 54\<close>, which are the inputs whose product with 3600 rounds to
  a double below 1, \<^verbatim>\<open>decimal_to_dms(d)\<close> returns \<open>(0, 0, 0)\<close>.
\<close>

theorem C10_below_one_second:
  assumes "d < 0" and "\<bar>d\<bar> * 3600 < 1 - 1 / 2 ^ 54"
  shows "decimal_to_dms (Finite d) = Inr (0, 0, 0)"
proof -
  have t0: "0 \<le> \<bar>d\<bar> * 3600" by simp
  have "(1::rat) - 1 / 2 ^ 54 < 2 ^ 52" by simp
  with assms(2) have r: "\<bar>d\<bar> * 3600 < 2 ^ 52" by (rule less_trans)
  have "rnd (\<bar>d\<bar> * 3600) < 1" using t0 assms(2) by (rule rnd_lt_one)
  moreover have "0 \<le> rnd (\<bar>d\<bar> * 3600)" using t0 by (rule rnd_nonneg)
  ultimately have "\<lfloor>rnd (\<bar>d\<bar> * 3600)\<rfloor> = 0" by (simp add: floor_eq_iff)
  then show ?thesis
    unfolding decimal_to_dms_value [OF r] by (simp add: dms_signed_def)
qed

theorem C10_below_one_second_witness:
  "- (1 / 8192) < (0::rat) \<and> \<bar>- (1 / 8192)\<bar> * 3600 < (1::rat) - 1 / 2 ^ 54
   \<and> decimal_to_dms (Finite (- (1 / 8192))) = Inr (0, 0, 0)"
proof -
  have a: "- (1 / 8192) < (0::rat)" by simp
  have b: "\<bar>- (1 / 8192)\<bar> * 3600 < (1::rat) - 1 / 2 ^ 54" by simp
  from C10_below_one_second [OF a b] a b show ?thesis by simp
qed

text \<open>
  Claim C10 as it is written takes every negative \<open>d\<close> with \<open>\<bar>d\<bar> < 1 / 3600\<close>.  The
  double nearest to \<open>1 / 3600\<close>, \<open>5124095576030431 / 2 ^ 64\<close>, lies below \<open>1 / 3600\<close>; its
  product with 3600 is \<open>1 - 1 / 2 ^ 60\<close>, which rounds to \<open>1\<close>, so that for its negative
  the result is \<open>(0, 0, - 1)\<close>.
\<close>

theorem C10_counterexample:
  "- (5124095576030431 / 18446744073709551616) < (0::rat)
   \<and> \<bar>- (5124095576030431 / 18446744073709551616)\<bar> < (1::rat) / 3600
   \<and> is_double (- (5124095576030431 / 18446744073709551616))
   \<and> decimal_to_dms (Finite (- (5124095576030431 / 18446744073709551616))) = Inr (0, 0, - 1)"
proof -
  have r: "\<bar>- (5124095576030431 / 18446744073709551616)\<bar> * 3600 < (2::rat) ^ 52" by simp
  have p: "\<bar>- (5124095576030431 / 18446744073709551616)\<bar> * 3600
             = (1152921504606846975 / 1152921504606846976 :: rat)" by simp
  have "decimal_to_dms (Finite (- (5124095576030431 / 18446744073709551616))) = Inr (0, 0, - 1)"
    unfolding decimal_to_dms_value [OF r] p rnd_below_one by (simp add: dms_signed_def)
  then show ?thesis using double_below_3600th by simp
qed

subsection \<open>The coordinate pair\<close>

lemma float_divmod_finite:
  "\<exists>a b. float_divmod (Finite v) k = (Finite a, Finite b)"
  by (simp add: float_divmod_def Let_def)

lemma float_divmod_not_finite:
  assumes "\<And>v. x \<noteq> Finite v"
  shows "float_divmod x k = (NaN, NaN)"
proof (cases x)
  case (Finite v)
  with assms show ?thesis by blast
qed (simp_all add: float_divmod_def)

lemma decimal_to_dms_returns:
  assumes "dms_convertible x"
  shows "\<exists>t. decimal_to_dms x = Inr t"
proof -
  from assms obtain v where v: "float_mul (float_abs x) 3600 = Finite v"
    by (auto simp: dms_convertible_def split: pyfloat.splits)
  obtain m s where ms: "float_divmod (Finite v) 60 = (Finite m, Finite s)"
    using float_divmod_finite by blast
  obtain dg mi where dm: "float_divmod (Finite m) 60 = (Finite dg, Finite mi)"
    using float_divmod_finite by blast
  show ?thesis
    unfolding decimal_to_dms_def v ms dm prod.case
    by (simp add: propagate_sign_def int_triple_def float_int_def float_neg_def)
qed

lemma decimal_to_dms_raises:
  assumes "\<not> dms_convertible x"
  shows "decimal_to_dms x = Inl ValueError"
proof -
  from assms have "\<And>v. float_mul (float_abs x) 3600 \<noteq> Finite v"
    by (auto simp: dms_convertible_def)
  then have "float_divmod (float_mul (float_abs x) 3600) 60 = (NaN, NaN)"
    by (rule float_divmod_not_finite)
  moreover have "float_divmod NaN 60 = (NaN, NaN)" by (simp add: float_divmod_def)
  ultimately show ?thesis
    unfolding decimal_to_dms_def
    by (simp add: propagate_sign_def int_triple_def float_int_def float_neg_def float_gt0_def)
qed

lemma convertible_if_returns:
  assumes "decimal_to_dms x = Inr t"
  shows "dms_convertible x"
proof (rule ccontr)
  assume "\<not> dms_convertible x"
  then have "decimal_to_dms x = Inl ValueError" by (rule decimal_to_dms_raises)
  with assms show False by simp
qed

lemma not_convertible_if_raises:
  assumes "decimal_to_dms x = Inl e"
  shows "\<not> dms_convertible x"
proof
  assume "dms_convertible x"
  then obtain t where "decimal_to_dms x = Inr t" using decimal_to_dms_returns by blast
  with assms show False by simp
qed

lemma pair_cases:
  obtains N W where "xs = [N, W]" | "\<And>N W. xs \<noteq> [N, W]"
  by blast

lemma dms_convertible_cases:
  "dms_convertible NaN = False" "dms_convertible PosInf = False" "dms_convertible NegInf = False"
  "dms_convertible (Finite q) = (\<not> 2 ^ 1024 \<le> \<bar>rnd (\<bar>q\<bar> * 3600)\<bar>)"
  by (simp_all add: dms_convertible_def float_abs_def float_mul_def fl_def)

text \<open>
  Claim C8, as the code has it.  \<^verbatim>\<open>lat_long_decimal_to_dms\<close> returns a pair exactly when
  the string splits at its commas into exactly two parts, both parts parse as floats,
  and \<^verbatim>\<open>decimal_to_dms\<close> returns for both values; the pair is then made of these two
  results.  It raises exactly when the string is not such a pair of parseable floats
  or one of the two values is NaN, infinite, or so large that its product with 3600 is
  infinite.
\<close>

theorem C8_pair:
  "(lat_long_decimal_to_dms float_of coord = Inr c) =
     (\<exists>N W n w. split_on CHR '','' coord = [N, W] \<and> float_of N = Some n \<and> float_of W = Some w
        \<and> decimal_to_dms n = Inr (fst c) \<and> decimal_to_dms w = Inr (snd c))
   \<and> (\<exists>e. lat_long_decimal_to_dms float_of coord = Inl e) =
     (\<not> (\<exists>N W n w. split_on CHR '','' coord = [N, W] \<and> float_of N = Some n \<and> float_of W = Some w
        \<and> dms_convertible n \<and> dms_convertible w))"
proof (cases "split_on CHR '','' coord" rule: pair_cases)
  case (1 N W)
  show ?thesis
  proof (cases "float_of N")
    case None
    then show ?thesis using 1 by (simp add: lat_long_decimal_to_dms_def)
  next
    case n: (Some n)
    show ?thesis
    proof (cases "decimal_to_dms n")
      case (Inl e)
      then have "\<not> dms_convertible n" by (rule not_convertible_if_raises)
      then show ?thesis using 1 n Inl by (simp add: lat_long_decimal_to_dms_def)
    next
      case a: (Inr a)
      then have cn: "dms_convertible n" by (rule convertible_if_returns)
      show ?thesis
      proof (cases "float_of W")
        case None
        then show ?thesis using 1 n a by (simp add: lat_long_decimal_to_dms_def)
      next
        case w: (Some w)
        show ?thesis
        proof (cases "decimal_to_dms w")
          case (Inl e)
          then have "\<not> dms_convertible w" by (rule not_convertible_if_raises)
          then show ?thesis using 1 n a w Inl by (simp add: lat_long_decimal_to_dms_def)
        next
          case b: (Inr b)
          then have "dms_convertible w" by (rule convertible_if_returns)
          then show ?thesis using 1 n a w b cn
            by (auto simp: lat_long_decimal_to_dms_def)
        qed
      qed
    qed
  qed
next
  case 2
  then have "lat_long_decimal_to_dms float_of coord = Inl ValueError"
    by (auto simp: lat_long_decimal_to_dms_def split: list.splits)
  then show ?thesis using 2 by simp
qed

text \<open>
  Claim C8 as it is written says that it fails only when the string is not a pair of
  parseable floats.  The string \<^verbatim>\<open>nan,0\<close> is such a pair, and the call raises
  \<^verbatim>\<open>ValueError\<close>, since \<^verbatim>\<open>int\<close> of NaN does.
\<close>

theorem C8_counterexample:
  "split_on CHR '','' ''nan,0'' = [''nan'', ''0'']
   \<and> example_float ''nan'' = Some NaN
   \<and> example_float ''0'' = Some (Finite 0)
   \<and> lat_long_decimal_to_dms example_float ''nan,0'' = Inl ValueError"
  by (simp add: lat_long_decimal_to_dms_def example_float_def decimal_to_dms_def float_abs_def
      float_mul_def float_divmod_def propagate_sign_def float_lt0_def float_gt0_def float_neg_def
      int_triple_def float_int_def)

subsection \<open>EXIF tags\<close>

lemma degrees_40: "decimal_to_dms (Finite 40) = Inr (40, 0, 0)"
proof -
  have r: "\<bar>40\<bar> * 3600 < (2::rat) ^ 52" by simp
  have p: "\<bar>40\<bar> * 3600 = rat_of_int 144000" by simp
  have q: "rnd (rat_of_int 144000) = rat_of_int 144000" by (rule rnd_of_int) simp_all
  show ?thesis
    unfolding decimal_to_dms_value [OF r] p q floor_of_int by (simp add: dms_signed_def)
qed

lemma degrees_minus_74: "decimal_to_dms (Finite (- 74)) = Inr (- 74, 0, 0)"
proof -
  have r: "\<bar>- 74\<bar> * 3600 < (2::rat) ^ 52" by simp
  have p: "\<bar>- 74\<bar> * 3600 = rat_of_int 266400" by simp
  have q: "rnd (rat_of_int 266400) = rat_of_int 266400" by (rule rnd_of_int) simp_all
  show ?thesis
    unfolding decimal_to_dms_value [OF r] p q floor_of_int by (simp add: dms_signed_def)
qed

lemma degrees_0: "decimal_to_dms (Finite 0) = Inr (0, 0, 0)"
proof -
  have r: "\<bar>0\<bar> * 3600 < (2::rat) ^ 52" by simp
  show ?thesis unfolding decimal_to_dms_value [OF r] by (simp add: dms_signed_def)
qed

lemma override_zero:
  "geo_coordinate example_float (Some ''0,0'') = Inr (Some ((0, 0, 0), (0, 0, 0)))"
  by (simp add: geo_coordinate_def lat_long_decimal_to_dms_def example_float_def degrees_0)

lemma override_west:
  "geo_coordinate degrees_float (Some ''40,-74'') = Inr (Some ((40, 0, 0), (- 74, 0, 0)))"
  by (simp add: geo_coordinate_def lat_long_decimal_to_dms_def degrees_float_def
      degrees_40 degrees_minus_74)

text \<open>
  Claim C7.  With a coordinate override and a download that succeeds, the file is to
  carry the two triples with the references \<^verbatim>\<open>N\<close> and \<^verbatim>\<open>W\<close> whatever the signs are, and
  when the EXIF library rejects the file or the data, a warning is to be logged and the
  file is to keep exactly the downloaded bytes.  The \<^verbatim>\<open>try\<close> block of lines 86-97
  contains a failure of the library only in part.

  Line 94 opens the file for writing before line 95 evaluates \<^verbatim>\<open>image.get_file()\<close>: with
  the override \<^verbatim>\<open>0,0\<close> and a library whose \<^verbatim>\<open>get_file\<close> raises \<^verbatim>\<open>RuntimeError\<close>, the
  program returns 0 and logs the warning, and of the four bytes that were downloaded
  nothing is left, the file is empty.

  Line 96 catches \<^verbatim>\<open>RuntimeError\<close> only: with the override \<^verbatim>\<open>40,-74\<close>, whose second triple
  is \<open>(- 74, 0, 0)\<close>, and a library that raises another exception for a negative
  component, the exception leaves the program, no warning is logged, and the file holds
  the downloaded bytes without tags.
\<close>

theorem C7_exif_failure_not_contained:
  "fst (main unserialisable_env example_float (\<lambda>t s. Inr (one_photo_album ''trip'' ''beach''))
          (geo_args ''/data'' ''0,0'') (world_of [(''/data'', Dir)])) = Returned 0
   \<and> gets (snd (main unserialisable_env example_float (\<lambda>t s. Inr (one_photo_album ''trip'' ''beach''))
          (geo_args ''/data'' ''0,0'') (world_of [(''/data'', Dir)]))) = [''u1'']
   \<and> http_get unserialisable_env 0 ''u1'' = Response [''JPEG''] False
   \<and> last (logs (snd (main unserialisable_env example_float
          (\<lambda>t s. Inr (one_photo_album ''trip'' ''beach''))
          (geo_args ''/data'' ''0,0'') (world_of [(''/data'', Dir)]))))
       = (WARNING, ''Unable to store EXIF data: cannot serialise'')
   \<and> fs (snd (main unserialisable_env example_float (\<lambda>t s. Inr (one_photo_album ''trip'' ''beach''))
          (geo_args ''/data'' ''0,0'') (world_of [(''/data'', Dir)]))) ''/data/trip/beach.jpg''
       = Some (File [] (Written 2))
   \<and> fst (main unsigned_env degrees_float (\<lambda>t s. Inr (one_photo_album ''trip'' ''beach''))
          (geo_args ''/data'' ''40,-74'') (world_of [(''/data'', Dir)]))
       = Raised (OtherError ''PackError'')
   \<and> map fst (logs (snd (main unsigned_env degrees_float
          (\<lambda>t s. Inr (one_photo_album ''trip'' ''beach''))
          (geo_args ''/data'' ''40,-74'') (world_of [(''/data'', Dir)])))) = [INFO, INFO]
   \<and> fs (snd (main unsigned_env degrees_float (\<lambda>t s. Inr (one_photo_album ''trip'' ''beach''))
          (geo_args ''/data'' ''40,-74'') (world_of [(''/data'', Dir)]))) ''/data/trip/beach.jpg''
       = Some (File ''JPEG'' (Written 1))"
  by (simp add: main_def geo_args_def override_zero override_west unserialisable_env_def
      unsigned_env_def model_defs example_defs Let_def)

subsection \<open>The exit status\<close>

text \<open>
  Claim C1.  The exit status is to be 0 when \<^verbatim>\<open>download_albums\<close> returned success and
  1 when it returned failure.  With the target directory \<^verbatim>\<open>/missing\<close>, which does not
  exist, \<^verbatim>\<open>main\<close> returns 1, and the exit status of the script is 0.
\<close>

theorem C1_exit_status_ignores_failure:
  "fst (main example_env example_float (\<lambda>t s. Inr (one_photo_album ''trip'' ''beach''))
          (example_args ''/missing'') (world_of [(''/data'', Dir)])) = Returned 1
   \<and> exit_status example_env example_float (\<lambda>t s. Inr (one_photo_album ''trip'' ''beach''))
          (example_args ''/missing'') (world_of [(''/data'', Dir)]) = 0"
  by (simp add: exit_status_def main_def geo_coordinate_def example_args_def model_defs example_defs)

end
